theory Spec2Isabelle
  imports Main "HOL-Library.Char_ord" "HOL-Library.List_Lexorder" "HOL-Library.AList"
begin

section \<open>Strings, files and CSV readers\<close>

text \<open>
  Python strings are modelled as \<open>string\<close>; a \<open>char\<close> stands for a code point below 256.
  The order on strings is the lexicographic order on code points (a proper prefix is
  smaller), which is what Python's \<open><\<close> and \<open>sorted\<close> use on \<open>str\<close>.
\<close>

type_synonym path = string

text \<open>\<open>str(n)\<close> for a non-negative integer.\<close>

fun string_of_nat :: "nat \<Rightarrow> string" where
  "string_of_nat n =
     (if n < 10 then [''0123456789'' ! n]
      else string_of_nat (n div 10) @ [''0123456789'' ! (n mod 10)])"

declare string_of_nat.simps [simp del]

text \<open>\<open>sep.join(xs)\<close>.\<close>

fun join :: "string \<Rightarrow> string list \<Rightarrow> string" where
  "join sep [] = []"
| "join sep [x] = x"
| "join sep (x # y # ys) = x @ sep @ join sep (y # ys)"

text \<open>\<open>s.startswith(p)\<close>.\<close>

definition startswith :: "string \<Rightarrow> string \<Rightarrow> bool" where
  "startswith s p = (take (length p) s = p)"

text \<open>
  \<open>str.isspace\<close> on one character, for the code points below 256: TAB to CR, the four
  separators FS to US, the space, NEL and the no-break space.
\<close>

definition isspace :: "char \<Rightarrow> bool" where
  "isspace c =
     (let n = (of_char c :: nat)
      in (9 \<le> n \<and> n \<le> 13) \<or> (28 \<le> n \<and> n \<le> 32) \<or> n = 133 \<or> n = 160)"

text \<open>\<open>s.strip()\<close>: whitespace is removed at both ends.\<close>

definition strip :: "string \<Rightarrow> string" where
  "strip s = rev (dropWhile isspace (rev (dropWhile isspace s)))"

text \<open>
  \<open>s.zfill(width)\<close>: a string that is long enough is returned as it is; otherwise zeros
  are put in front, after a leading sign if there is one.
\<close>

definition zfill :: "nat \<Rightarrow> string \<Rightarrow> string" where
  "zfill width s =
     (if width \<le> length s then s
      else (let fill = width - length s
            in case s of
                 [] \<Rightarrow> replicate fill CHR ''0''
               | c # cs \<Rightarrow>
                   if c = CHR ''+'' \<or> c = CHR ''-''
                   then c # replicate fill CHR ''0'' @ cs
                   else replicate fill CHR ''0'' @ s))"

text \<open>
  A file on disk is described by what its bytes are: a gzip stream of a CSV text, or a
  CSV text as it is. The CSV text is given by the records \<open>csv.reader\<close> yields for it
  (one list of cells per line; the text without any line has no record).
\<close>

type_synonym records = "string list list"

datatype file_content = Gzip records | Plain records

type_synonym filesystem = "path \<Rightarrow> file_content option"

datatype exn = FileNotFoundError | BadGzipFile | UnicodeDecodeError

text \<open>A text handle remembers how it was opened and the bytes it reads.\<close>

datatype handle = GzipText file_content | PlainText file_content

definition path_exists :: "filesystem \<Rightarrow> path \<Rightarrow> bool" where
  "path_exists fs p = (fs p \<noteq> None)"

text \<open>
  \<open>gzip.open(path, "rt")\<close> opens the underlying file and wraps it; it raises (an
  \<open>OSError\<close>) only when the file cannot be opened. The gzip header is not looked at
  before the first read.
\<close>

definition gzip_open :: "filesystem \<Rightarrow> path \<Rightarrow> exn + handle" where
  "gzip_open fs p = (case fs p of None \<Rightarrow> Inl FileNotFoundError | Some c \<Rightarrow> Inr (GzipText c))"

definition plain_open :: "filesystem \<Rightarrow> path \<Rightarrow> exn + handle" where
  "plain_open fs p = (case fs p of None \<Rightarrow> Inl FileNotFoundError | Some c \<Rightarrow> Inr (PlainText c))"

text \<open>
  Reading a handle to its end. A gzip reader on bytes that do not start with the gzip
  magic number raises \<open>BadGzipFile\<close>, except on a file of no bytes, which it reads as
  the empty text. A text reader on a gzip stream meets the byte 0x8b and raises
  \<open>UnicodeDecodeError\<close>.
\<close>

fun read_records :: "handle \<Rightarrow> exn + records" where
  "read_records (GzipText (Gzip recs)) = Inr recs"
| "read_records (GzipText (Plain recs)) = (if recs = [] then Inr [] else Inl BadGzipFile)"
| "read_records (PlainText (Plain recs)) = Inr recs"
| "read_records (PlainText (Gzip recs)) = Inl UnicodeDecodeError"

text \<open>
  \<open>csv.DictReader\<close>: the first record is the header. Every later record that is not
  empty becomes a dictionary; \<open>row.get(key)\<close> is \<open>None\<close> when the key is not in the header
  or the record is too short to have a cell for it, and where a name occurs twice in
  the header its last occurrence counts.
\<close>

type_synonym row = "string \<Rightarrow> string option"

definition fieldnames :: "records \<Rightarrow> string list option" where
  "fieldnames recs = (case recs of [] \<Rightarrow> None | header # _ \<Rightarrow> Some header)"

text \<open>
  The header test of the two loaders,
  \<open>reader.fieldnames is None or name not in reader.fieldnames\<close>, negated.
\<close>

definition has_column :: "records \<Rightarrow> string \<Rightarrow> bool" where
  "has_column recs name = (case fieldnames recs of None \<Rightarrow> False | Some header \<Rightarrow> name \<in> set header)"

definition dict_row :: "string list \<Rightarrow> string list \<Rightarrow> row" where
  "dict_row header cells key =
     (case map_of (rev (zip header (map Some cells @ replicate (length header - length cells) None))) key of
        None \<Rightarrow> None
      | Some v \<Rightarrow> v)"

definition dict_rows :: "records \<Rightarrow> row list" where
  "dict_rows recs =
     (case recs of [] \<Rightarrow> [] | header # rest \<Rightarrow> map (dict_row header) (filter (\<lambda>cells. cells \<noteq> []) rest))"

section \<open>The coverage auditor\<close>

definition NEW_MUNICIPIOS :: "string set" where
  "NEW_MUNICIPIOS = set [''11903'', ''14901'', ''14902'', ''18077'', ''21902'', ''41904'']"

definition COMMUNAL_CODES :: "string set" where
  "COMMUNAL_CODES = set [
    ''53000'', ''53001'', ''53002'', ''53003'', ''53004'', ''53005'', ''53006'', ''53007'',
    ''53008'', ''53009'', ''53010'', ''53011'', ''53012'', ''53013'', ''53014'', ''53015'',
    ''53016'', ''53017'', ''53018'', ''53019'', ''53020'', ''53021'', ''53022'', ''53023'',
    ''53024'', ''53025'', ''53026'', ''53027'', ''53028'', ''53029'', ''53031'', ''53032'',
    ''53033'', ''53034'', ''53035'', ''53036'', ''53037'', ''53038'', ''53039'', ''53040'',
    ''53041'', ''53042'', ''53043'', ''53044'', ''53045'', ''53046'', ''53047'', ''53048'',
    ''53049'', ''53050'', ''53051'', ''53052'', ''53053'', ''53054'', ''53055'', ''53056'',
    ''53057'', ''53058'', ''53059'', ''53060'', ''53061'', ''53062'', ''53063'', ''53064'',
    ''53065'', ''53066'', ''53067'', ''53068'', ''53069'', ''53070'', ''53071'', ''53072'',
    ''53073'', ''53074'', ''53075'', ''53076'', ''53077'', ''53078'', ''53080'', ''53081'',
    ''53083'', ''54001'', ''54002'', ''54003'', ''54004'', ''54005'']"

definition EXPECTED_ABSENT :: "string set" where
  "EXPECTED_ABSENT = NEW_MUNICIPIOS \<union> COMMUNAL_CODES"

text \<open>
  The two paths hang below the project root, which the script derives from its own
  location; the root is a parameter here.
\<close>

definition REF_PATH :: "path \<Rightarrow> path" where
  "REF_PATH project_root = project_root @ ''/data/input/municipalities.csv.gz''"

definition FORECAST_PATH :: "path \<Rightarrow> path" where
  "FORECAST_PATH project_root = project_root @ ''/data/output/daily_municipal_forecast.csv.gz''"

text \<open>
  What a run does is recorded as a list of events, in the order they happen. A run ends
  with a value, with \<open>sys.exit(code)\<close>, or with an exception nobody catches.
\<close>

datatype event = FileExists path | FileOpen path | Print string | PrintErr string

datatype abort = SysExit int | Uncaught exn

text \<open>The body of the loop of \<open>load_reference_ids\<close>, over the rows that are left.\<close>

fun reference_rows :: "row list \<Rightarrow> string set \<Rightarrow> string set" where
  "reference_rows [] ids = ids"
| "reference_rows (row # rest) ids =
     (case row ''CUMUN'' of
        None \<Rightarrow> reference_rows rest ids
      | Some raw \<Rightarrow>
          (let stripped = strip raw
           in if stripped = [] then reference_rows rest ids
              else reference_rows rest (insert (zfill 5 stripped) ids)))"

definition load_reference_ids :: "filesystem \<Rightarrow> path \<Rightarrow> event list \<times> (abort + string set)" where
  "load_reference_ids fs path =
     (if \<not> path_exists fs path
      then ([FileExists path, PrintErr (''ERROR: reference file not found: '' @ path)],
            Inl (SysExit 2))
      else
        (case gzip_open fs path of
           Inl e \<Rightarrow> ([FileExists path, FileOpen path], Inl (Uncaught e))
         | Inr handle \<Rightarrow>
             (case read_records handle of
                Inl e \<Rightarrow> ([FileExists path, FileOpen path], Inl (Uncaught e))
              | Inr recs \<Rightarrow>
                  if \<not> has_column recs ''CUMUN''
                  then ([FileExists path, FileOpen path,
                         PrintErr ''ERROR: reference file missing CUMUN header''],
                        Inl (SysExit 2))
                  else ([FileExists path, FileOpen path],
                        Inr (reference_rows (dict_rows recs) {})))))"

text \<open>The body of the loop of \<open>load_forecast_ids\<close>.\<close>

fun forecast_rows :: "row list \<Rightarrow> string set \<Rightarrow> string set" where
  "forecast_rows [] ids = ids"
| "forecast_rows (row # rest) ids =
     (case row ''municipio_id'' of
        None \<Rightarrow> forecast_rows rest ids
      | Some mid \<Rightarrow>
          if mid = [] then forecast_rows rest ids
          else forecast_rows rest (insert mid ids))"

definition load_forecast_ids :: "filesystem \<Rightarrow> path \<Rightarrow> event list \<times> (abort + string set)" where
  "load_forecast_ids fs path =
     (if \<not> path_exists fs path
      then ([FileExists path, PrintErr (''ERROR: forecast file not found: '' @ path)],
            Inl (SysExit 2))
      else
        (case plain_open fs path of
           Inl e \<Rightarrow> ([FileExists path, FileOpen path], Inl (Uncaught e))
         | Inr handle \<Rightarrow>
             (case read_records handle of
                Inl e \<Rightarrow> ([FileExists path, FileOpen path], Inl (Uncaught e))
              | Inr recs \<Rightarrow>
                  if \<not> has_column recs ''municipio_id''
                  then ([FileExists path, FileOpen path,
                         PrintErr ''ERROR: forecast file missing municipio_id header''],
                        Inl (SysExit 2))
                  else ([FileExists path, FileOpen path],
                        Inr (forecast_rows (dict_rows recs) {})))))"

text \<open>The two sorted lists \<open>main\<close> computes from the loaded sets.\<close>

definition missing :: "string set \<Rightarrow> string set \<Rightarrow> string list" where
  "missing ref_ids forecast_ids = sorted_list_of_set (ref_ids - forecast_ids - EXPECTED_ABSENT)"

definition unexpected_present :: "string set \<Rightarrow> string list" where
  "unexpected_present forecast_ids = sorted_list_of_set (forecast_ids \<inter> EXPECTED_ABSENT)"

text \<open>
  The part of \<open>main\<close> after the two loads: the lines it prints and the value it returns.
\<close>

definition report :: "string set \<Rightarrow> string set \<Rightarrow> string list \<times> int" where
  "report ref_ids forecast_ids =
     (let counts =
            [''Reference municipalities: '' @ string_of_nat (card ref_ids),
             ''Forecast municipalities: '' @ string_of_nat (card forecast_ids),
             ''Ignored IDs (expected absent): '' @ string_of_nat (card EXPECTED_ABSENT)];
          warning =
            (if unexpected_present forecast_ids \<noteq> []
             then [''WARNING: expected-absent IDs present in forecast data: ''
                     @ join '', '' (unexpected_present forecast_ids)]
             else [])
      in if missing ref_ids forecast_ids \<noteq> []
         then (counts @ warning @
                 [''ERROR: '' @ string_of_nat (length (missing ref_ids forecast_ids))
                    @ '' reference municipios missing from forecasts.'',
                  ''Sample missing IDs: '' @ join '', '' (take 20 (missing ref_ids forecast_ids))
                    @ (if 20 < length (missing ref_ids forecast_ids) then ''...'' else '''')],
               1)
         else (counts @ warning @ [''Municipal forecast coverage OK (excluding expected gaps).''],
               0))"

definition auditor_main :: "filesystem \<Rightarrow> path \<Rightarrow> event list \<times> (abort + int)" where
  "auditor_main fs project_root =
     (case load_reference_ids fs (REF_PATH project_root) of
        (ev1, Inl a) \<Rightarrow> (ev1, Inl a)
      | (ev1, Inr ref_ids) \<Rightarrow>
          (case load_forecast_ids fs (FORECAST_PATH project_root) of
             (ev2, Inl a) \<Rightarrow> (ev1 @ ev2, Inl a)
           | (ev2, Inr forecast_ids) \<Rightarrow>
               (case report ref_ids forecast_ids of
                  (lines, code) \<Rightarrow> (ev1 @ ev2 @ map Print lines, Inr code))))"

text \<open>
  The exit status of the process for \<open>sys.exit(main())\<close>: the value returned, the code
  given to \<open>sys.exit\<close>, or 1 after an exception that was not caught.
\<close>

definition exit_status :: "abort + int \<Rightarrow> int" where
  "exit_status r = (case r of Inr code \<Rightarrow> code | Inl (SysExit code) \<Rightarrow> code | Inl (Uncaught e) \<Rightarrow> 1)"

definition auditor_exit_status :: "filesystem \<Rightarrow> path \<Rightarrow> int" where
  "auditor_exit_status fs project_root = exit_status (snd (auditor_main fs project_root))"

section \<open>The dataset summarizer\<close>

text \<open>
  \<open>open_text\<close>: the gzip reader is tried, and a plain reader is opened when opening the
  gzip reader raises \<open>OSError\<close> (every \<open>exn\<close> of \<open>gzip_open\<close> is one).
\<close>

definition open_text :: "filesystem \<Rightarrow> path \<Rightarrow> exn + handle" where
  "open_text fs path = (case gzip_open fs path of Inr handle \<Rightarrow> Inr handle | Inl e \<Rightarrow> plain_open fs path)"

text \<open>
  The running minimum and maximum: \<open>v if cur is None or v < cur else cur\<close>, and the same
  with \<open>>\<close>.
\<close>

definition keep_min :: "string option \<Rightarrow> string \<Rightarrow> string option" where
  "keep_min cur v = (case cur of None \<Rightarrow> Some v | Some m \<Rightarrow> if v < m then Some v else Some m)"

definition keep_max :: "string option \<Rightarrow> string \<Rightarrow> string option" where
  "keep_max cur v = (case cur of None \<Rightarrow> Some v | Some m \<Rightarrow> if v > m then Some v else Some m)"

text \<open>
  The dictionaries keep their keys in insertion order, so they are association lists.
  \<open>per_day[day].add(station)\<close> on a \<open>defaultdict(set)\<close>; the station is what \<open>row.get\<close>
  gave, which may be \<open>None\<close>.
\<close>

definition add_station ::
  "string \<Rightarrow> string option \<Rightarrow> (string \<times> string option set) list \<Rightarrow> (string \<times> string option set) list" where
  "add_station day station per_day =
     AList.update day (insert station (case map_of per_day day of None \<Rightarrow> {} | Some stations \<Rightarrow> stations)) per_day"

text \<open>\<open>per_day[day] += 1\<close> on a \<open>defaultdict(int)\<close>.\<close>

definition add_one :: "string \<Rightarrow> (string \<times> nat) list \<Rightarrow> (string \<times> nat) list" where
  "add_one day per_day =
     AList.update day ((case map_of per_day day of None \<Rightarrow> 0 | Some n \<Rightarrow> n) + 1) per_day"

text \<open>
  The dictionary a summary function returns. A key the function does not set and a key
  whose value is \<open>None\<close> are both \<open>None\<close> here; \<open>emit_summary\<close> treats them alike.
\<close>

record stats =
  rows :: nat
  min_date :: "string option"
  max_date :: "string option"
  min_ts :: "string option"
  max_ts :: "string option"
  latest_collected_at :: "string option"
  per_day_counts :: "(string \<times> nat) list option"
  per_day_rows :: "(string \<times> nat) list option"

text \<open>The loop of \<open>summarise_daily_file\<close>, on the variables it updates.\<close>

fun daily_rows ::
  "string \<Rightarrow> string \<Rightarrow> row list
     \<Rightarrow> (string \<times> string option set) list \<times> string option \<times> string option \<times> nat
     \<Rightarrow> (string \<times> string option set) list \<times> string option \<times> string option \<times> nat" where
  "daily_rows date_col station_col [] acc = acc"
| "daily_rows date_col station_col (row # rest) (per_day, min_d, max_d, total_rows) =
     (let station_val = row station_col
      in case row date_col of
           None \<Rightarrow> daily_rows date_col station_col rest (per_day, min_d, max_d, total_rows + 1)
         | Some date_val \<Rightarrow>
             if date_val = []
             then daily_rows date_col station_col rest (per_day, min_d, max_d, total_rows + 1)
             else daily_rows date_col station_col rest
                    (add_station date_val station_val per_day,
                     keep_min min_d date_val, keep_max max_d date_val, total_rows + 1))"

text \<open>
  \<open>summarise_daily_file\<close> is split in two: \<open>scan_daily\<close> is the function on the rows
  the reader yields (the initial values, the loop and the dictionary returned), and
  \<open>summarise_daily_file\<close> opens the file and reads it. The other two summary
  functions are split the same way.
\<close>

definition scan_daily :: "string \<Rightarrow> string \<Rightarrow> row list \<Rightarrow> stats" where
  "scan_daily date_col station_col rs =
     (case daily_rows date_col station_col rs ([], None, None, 0) of
        (per_day, min_d, max_d, total_rows) \<Rightarrow>
          \<lparr>rows = total_rows, min_date = min_d, max_date = max_d,
           min_ts = None, max_ts = None, latest_collected_at = None,
           per_day_counts = Some (map (\<lambda>(day, stations). (day, card stations)) per_day),
           per_day_rows = None\<rparr>)"

definition summarise_daily_file :: "filesystem \<Rightarrow> path \<Rightarrow> string \<Rightarrow> string \<Rightarrow> exn + stats" where
  "summarise_daily_file fs path date_col station_col =
     (case open_text fs path of
        Inl e \<Rightarrow> Inl e
      | Inr handle \<Rightarrow>
          (case read_records handle of
             Inl e \<Rightarrow> Inl e
           | Inr recs \<Rightarrow> Inr (scan_daily date_col station_col (dict_rows recs))))"

text \<open>The loop of \<open>summarise_hourly_file\<close>; the day is \<open>fint[:10]\<close>.\<close>

fun hourly_rows ::
  "row list
     \<Rightarrow> (string \<times> string option set) list \<times> string option \<times> string option \<times> nat
     \<Rightarrow> (string \<times> string option set) list \<times> string option \<times> string option \<times> nat" where
  "hourly_rows [] acc = acc"
| "hourly_rows (row # rest) (per_day, min_t, max_t, total_rows) =
     (let station = row ''idema''
      in case row ''fint'' of
           None \<Rightarrow> hourly_rows rest (per_day, min_t, max_t, total_rows + 1)
         | Some fint \<Rightarrow>
             if fint = []
             then hourly_rows rest (per_day, min_t, max_t, total_rows + 1)
             else hourly_rows rest
                    (add_station (take 10 fint) station per_day,
                     keep_min min_t fint, keep_max max_t fint, total_rows + 1))"

definition scan_hourly :: "row list \<Rightarrow> stats" where
  "scan_hourly rs =
     (case hourly_rows rs ([], None, None, 0) of
        (per_day, min_t, max_t, total_rows) \<Rightarrow>
          \<lparr>rows = total_rows, min_date = None, max_date = None,
           min_ts = min_t, max_ts = max_t, latest_collected_at = None,
           per_day_counts = Some (map (\<lambda>(day, stations). (day, card stations)) per_day),
           per_day_rows = None\<rparr>)"

definition summarise_hourly_file :: "filesystem \<Rightarrow> path \<Rightarrow> exn + stats" where
  "summarise_hourly_file fs path =
     (case open_text fs path of
        Inl e \<Rightarrow> Inl e
      | Inr handle \<Rightarrow>
          (case read_records handle of
             Inl e \<Rightarrow> Inl e
           | Inr recs \<Rightarrow> Inr (scan_hourly (dict_rows recs))))"

text \<open>
  The loop of \<open>summarise_forecast\<close>. Its last statement is
  \<open>if ca and (collected_at is None or ca > collected_at): collected_at = ca\<close>.
\<close>

definition latest :: "string option \<Rightarrow> string option \<Rightarrow> string option" where
  "latest collected_at ca =
     (case ca of
        None \<Rightarrow> collected_at
      | Some c \<Rightarrow>
          if c = [] then collected_at
          else (case collected_at of
                  None \<Rightarrow> Some c
                | Some cur \<Rightarrow> if c > cur then Some c else Some cur))"

fun forecast_day_rows ::
  "row list
     \<Rightarrow> (string \<times> nat) list \<times> string option \<times> string option \<times> string option \<times> nat
     \<Rightarrow> (string \<times> nat) list \<times> string option \<times> string option \<times> string option \<times> nat" where
  "forecast_day_rows [] acc = acc"
| "forecast_day_rows (row # rest) (per_day, min_d, max_d, collected_at, total_rows) =
     (case row ''fecha'' of
        None \<Rightarrow>
          forecast_day_rows rest
            (per_day, min_d, max_d, latest collected_at (row ''collected_at''), total_rows + 1)
      | Some date_val \<Rightarrow>
          if date_val = []
          then forecast_day_rows rest
                 (per_day, min_d, max_d, latest collected_at (row ''collected_at''), total_rows + 1)
          else forecast_day_rows rest
                 (add_one date_val per_day, keep_min min_d date_val, keep_max max_d date_val,
                  latest collected_at (row ''collected_at''), total_rows + 1))"

definition scan_forecast :: "row list \<Rightarrow> stats" where
  "scan_forecast rs =
     (case forecast_day_rows rs ([], None, None, None, 0) of
        (per_day, min_d, max_d, collected_at, total_rows) \<Rightarrow>
          \<lparr>rows = total_rows, min_date = min_d, max_date = max_d,
           min_ts = None, max_ts = None, latest_collected_at = collected_at,
           per_day_counts = None,
           per_day_rows = Some per_day\<rparr>)"

definition summarise_forecast :: "filesystem \<Rightarrow> path \<Rightarrow> exn + stats" where
  "summarise_forecast fs path =
     (case open_text fs path of
        Inl e \<Rightarrow> Inl e
      | Inr handle \<Rightarrow>
          (case read_records handle of
             Inl e \<Rightarrow> Inl e
           | Inr recs \<Rightarrow> Inr (scan_forecast (dict_rows recs))))"

text \<open>\<open>emit_summary\<close>: the lines it prints.\<close>

definition field_line :: "string \<Rightarrow> string option \<Rightarrow> string list" where
  "field_line key v = (case v of None \<Rightarrow> [] | Some s \<Rightarrow> [key @ '': '' @ s])"

definition per_day_block :: "string \<Rightarrow> (string \<times> nat) list \<Rightarrow> nat \<Rightarrow> string list" where
  "per_day_block label per_day last_n =
     (if per_day = [] then []
      else (let items = sort_key fst per_day;
                recent = (if last_n = 0 then items else drop (length items - last_n) items)
            in (label @ '' (last '' @ string_of_nat (length recent) @ '' days):'')
               # map (\<lambda>(day, v). ''  '' @ day @ '': '' @ string_of_nat v) recent))"

definition emit_summary :: "string \<Rightarrow> stats \<Rightarrow> nat \<Rightarrow> string list" where
  "emit_summary title st last_n =
     [''=== '' @ title @ '' ==='']
     @ [''rows: '' @ string_of_nat (rows st)]
     @ field_line ''min_date'' (min_date st)
     @ field_line ''max_date'' (max_date st)
     @ field_line ''min_ts'' (min_ts st)
     @ field_line ''max_ts'' (max_ts st)
     @ field_line ''latest_collected_at'' (latest_collected_at st)
     @ (case per_day_counts st of
          Some per_day \<Rightarrow> per_day_block ''stations_per_day'' per_day last_n
        | None \<Rightarrow>
            (case per_day_rows st of
               Some per_day \<Rightarrow> per_day_block ''rows_per_day'' per_day last_n
             | None \<Rightarrow> []))
     @ [[]]"

text \<open>
  \<open>main\<close> of the summarizer: the lines printed, and the exception that ended the run, if
  one did. \<open>summarise_by_label\<close> is the \<open>if\<close>/\<open>elif\<close>/\<open>else\<close> of the loop body that picks
  the summary function from the label.
\<close>

definition summarise_by_label :: "filesystem \<Rightarrow> string \<Rightarrow> path \<Rightarrow> exn + stats" where
  "summarise_by_label fs label path =
     (if startswith label ''Hourly'' then summarise_hourly_file fs path
      else if startswith label ''Forecast'' then summarise_forecast fs path
      else summarise_daily_file fs path ''fecha'' ''indicativo'')"

fun summarizer_main :: "filesystem \<Rightarrow> (string \<times> path) list \<Rightarrow> string list \<times> exn option" where
  "summarizer_main fs [] = ([], None)"
| "summarizer_main fs ((label, path) # rest) =
     (if \<not> path_exists fs path
      then (case summarizer_main fs rest of
              (out, r) \<Rightarrow> ([''=== '' @ label @ '' ==='', ''File not found: '' @ path, []] @ out, r))
      else
        (case summarise_by_label fs label path of
           Inl e \<Rightarrow> ([], Some e)
         | Inr st \<Rightarrow>
             (case summarizer_main fs rest of
                (out, r) \<Rightarrow> (emit_summary label st 7 @ out, r))))"

text \<open>The exit status of the summarizer's process: 1 after an exception nobody caught.\<close>

definition summarizer_exit_status :: "filesystem \<Rightarrow> (string \<times> path) list \<Rightarrow> int" where
  "summarizer_exit_status fs paths = (case snd (summarizer_main fs paths) of None \<Rightarrow> 0 | Some e \<Rightarrow> 1)"

section \<open>Observations and example inputs\<close>

text \<open>The truth value Python gives to what \<open>row.get\<close> returned.\<close>

definition truthy :: "string option \<Rightarrow> bool" where
  "truthy v = (case v of None \<Rightarrow> False | Some s \<Rightarrow> s \<noteq> [])"

text \<open>The non-empty values of a column, in the order of the rows.\<close>

definition values_of :: "string \<Rightarrow> row list \<Rightarrow> string list" where
  "values_of col rs =
     concat (map (\<lambda>r. case r col of None \<Rightarrow> [] | Some v \<Rightarrow> if v = [] then [] else [v]) rs)"

text \<open>
  The rows that have a non-empty value in the date column, each as that value with
  what \<open>row.get\<close> gives for the station column.
\<close>

definition keyed :: "string \<Rightarrow> string \<Rightarrow> row list \<Rightarrow> (string \<times> string option) list" where
  "keyed date_col station_col rs =
     concat (map (\<lambda>r. case r date_col of None \<Rightarrow> []
                        | Some d \<Rightarrow> if d = [] then [] else [(d, r station_col)]) rs)"

text \<open>The lines a run wrote to standard output, in order.\<close>

definition stdout_lines :: "event list \<Rightarrow> string list" where
  "stdout_lines evs = concat (map (\<lambda>e. case e of Print l \<Rightarrow> [l] | _ \<Rightarrow> []) evs)"

text \<open>
  What \<open>row.get\<close> gives for the station column in the rows of one day: the rows whose
  date is that day, and for the hourly file the rows whose non-empty timestamp starts
  with that day.
\<close>

definition day_stations :: "string \<Rightarrow> string \<Rightarrow> row list \<Rightarrow> string \<Rightarrow> string option set" where
  "day_stations date_col station_col rs day =
     set (map (\<lambda>r. r station_col)
            (filter (\<lambda>r. case r date_col of None \<Rightarrow> False | Some d \<Rightarrow> d \<noteq> [] \<and> d = day) rs))"

definition hourly_day_stations :: "row list \<Rightarrow> string \<Rightarrow> string option set" where
  "hourly_day_stations rs day =
     set (map (\<lambda>r. r ''idema'')
            (filter (\<lambda>r. case r ''fint'' of None \<Rightarrow> False | Some t \<Rightarrow> t \<noteq> [] \<and> take 10 t = day) rs))"

text \<open>
  A project whose reference file is a gzip CSV with the identifiers 1234, 5000 (with
  blanks around it) and 11903, an empty cell and an empty line, and whose forecast file
  is a plain CSV with 05000, the communal code 53000 and an empty identifier.
\<close>

definition example_fs :: filesystem where
  "example_fs p =
     (if p = REF_PATH ''/repo''
      then Some (Gzip [[''CUMUN'', ''NAME''], [''1234'', ''A''], ['' 5000 '', ''B''],
                       [''11903'', ''C''], [''''], []])
      else if p = FORECAST_PATH ''/repo''
      then Some (Plain [[''municipio_id'', ''fecha''], [''05000'', ''2024-01-01''],
                        [''53000'', ''2024-01-01''], ['''', ''x'']])
      else None)"

text \<open>A project whose reference file has no CUMUN column.\<close>

definition headerless_fs :: filesystem where
  "headerless_fs p =
     (if p = REF_PATH ''/repo''
      then Some (Gzip [[''CODE'', ''NAME''], [''1234'', ''A'']])
      else if p = FORECAST_PATH ''/repo''
      then Some (Plain [[''municipio_id''], [''01234'']])
      else None)"

text \<open>
  A project whose only reference identifier is in the forecast file, next to the
  communal code 53000.
\<close>

definition covered_fs :: filesystem where
  "covered_fs p =
     (if p = REF_PATH ''/repo''
      then Some (Gzip [[''CUMUN''], [''5000'']])
      else if p = FORECAST_PATH ''/repo''
      then Some (Plain [[''municipio_id''], [''05000''], [''53000'']])
      else None)"

text \<open>
  Example files for the summarizer. The forecast file has three rows dated 2024-01-01
  and one dated 2024-01-02. The daily file has two stations on 2024-01-01, a row with an
  empty station cell and a row without a station cell on 2024-01-02, and a last row
  without a date. The file without a station column has two rows on one day. The hourly
  file has one station on two days, a row without a station cell on a third day, and a
  last row without a timestamp.
\<close>

definition forecast_example :: records where
  "forecast_example =
     [[''fecha'', ''municipio_id'', ''collected_at''],
      [''2024-01-01'', ''08019'', ''2024-01-01T06:00:00''],
      [''2024-01-02'', ''08019'', ''2024-01-01T12:00:00''],
      [''2024-01-01'', ''08020'', ''2024-01-01T06:00:00''],
      [''2024-01-01'', ''08021'', '''']]"

definition daily_example :: records where
  "daily_example =
     [[''fecha'', ''indicativo''],
      [''2024-01-01'', ''0076''],
      [''2024-01-01'', ''0076''],
      [''2024-01-01'', ''0200E''],
      [''2024-01-02'', ''''],
      [''2024-01-02''],
      ['''', ''0076'']]"

definition stationless_example :: records where
  "stationless_example = [[''fecha''], [''2024-01-03''], [''2024-01-03'']]"

definition hourly_example :: records where
  "hourly_example =
     [[''fint'', ''idema''],
      [''2024-01-01T00:00:00'', ''0076''],
      [''2024-01-01T01:00:00'', ''0076''],
      [''2024-01-02T00:00:00'', ''0076''],
      [''2024-01-03T05:00:00''],
      ['''', ''0076'']]"

text \<open>A forecast file whose second row has no date and the latest collection time.\<close>

definition forecast_gaps_example :: records where
  "forecast_gaps_example =
     [[''fecha'', ''collected_at''],
      [''2024-01-01'', ''2024-01-01T06:00:00''],
      ['''', ''2024-01-01T18:00:00''],
      [''2024-01-01'', ''2024-01-01T00:00:00'']]"

definition summarizer_fs :: filesystem where
  "summarizer_fs p =
     (if p = ''forecast.csv.gz'' then Some (Gzip forecast_example)
      else if p = ''daily.csv.gz'' then Some (Gzip daily_example)
      else if p = ''stationless.csv.gz'' then Some (Gzip stationless_example)
      else if p = ''hourly.csv.gz'' then Some (Gzip hourly_example)
      else if p = ''forecast_gaps.csv.gz'' then Some (Gzip forecast_gaps_example)
      else if p = ''forecast.csv'' then Some (Plain forecast_example)
      else None)"

section \<open>Identifier normalisation\<close>

lemma not_isspace_pad [simp]:
  "\<not> isspace CHR ''0''" "\<not> isspace CHR ''+''" "\<not> isspace CHR ''-''"
  by (simp_all add: isspace_def)

lemma strip_fixed:
  assumes "s \<noteq> []" "\<not> isspace (hd s)" "\<not> isspace (last s)"
  shows "strip s = s"
proof -
  from assms have a: "dropWhile isspace s = s" by (cases s) auto
  from assms have "rev s \<noteq> []" "\<not> isspace (hd (rev s))" by (simp_all add: hd_rev)
  then have "dropWhile isspace (rev s) = rev s" by (cases "rev s") auto
  with a show ?thesis by (simp add: strip_def)
qed

lemma strip_ends:
  "strip s = [] \<or> (\<not> isspace (hd (strip s)) \<and> \<not> isspace (last (strip s)))"
proof (cases "strip s = []")
  case True then show ?thesis by simp
next
  case False
  define t where "t = dropWhile isspace s"
  define u where "u = dropWhile isspace (rev t)"
  have su: "strip s = rev u" by (simp add: strip_def t_def u_def)
  with False have u: "u \<noteq> []" by simp
  then have hu: "\<not> isspace (hd u)" unfolding u_def by (metis hd_dropWhile)
  from u have "rev t \<noteq> []" unfolding u_def by auto
  then have t: "t \<noteq> []" by simp
  then have ht: "\<not> isspace (hd t)" unfolding t_def by (metis hd_dropWhile)
  have "\<exists>ys. rev t = ys @ u" unfolding u_def by (metis takeWhile_dropWhile_id)
  then obtain ys where "rev t = ys @ u" ..
  then have "t = rev u @ rev ys" by (metis rev_append rev_rev_ident)
  with u have "hd t = hd (rev u)" by simp
  with ht hu u su show ?thesis by (simp add: last_rev)
qed

lemma zfill_long: "w \<le> length s \<Longrightarrow> zfill w s = s"
  by (simp add: zfill_def)

lemma length_zfill: "w \<le> length (zfill w s)"
  by (auto simp: zfill_def Let_def split: list.splits)

lemma zfill_ends:
  assumes "s = [] \<or> (\<not> isspace (hd s) \<and> \<not> isspace (last s))" "0 < w"
  shows "zfill w s \<noteq> [] \<and> \<not> isspace (hd (zfill w s)) \<and> \<not> isspace (last (zfill w s))"
  using assms
  by (cases s) (auto simp: zfill_def Let_def hd_append last_append)

lemma normalise_twice: "zfill 5 (strip (zfill 5 (strip s))) = zfill 5 (strip s)"
proof -
  have "zfill 5 (strip s) \<noteq> [] \<and> \<not> isspace (hd (zfill 5 (strip s)))
      \<and> \<not> isspace (last (zfill 5 (strip s)))"
    by (rule zfill_ends [OF strip_ends]) simp
  then have "strip (zfill 5 (strip s)) = zfill 5 (strip s)" by (simp add: strip_fixed)
  then show ?thesis by (simp add: zfill_long length_zfill)
qed

lemma digit_not_space: "c \<in> set ''0123456789'' \<Longrightarrow> \<not> isspace c"
  by (auto simp: isspace_def)

lemma normalise_digits:
  assumes "length s = 5" "\<forall>c\<in>set s. c \<in> set ''0123456789''"
  shows "zfill 5 (strip s) = s"
proof -
  from assms(1) have ne: "s \<noteq> []" by auto
  then have "hd s \<in> set s" "last s \<in> set s" by simp_all
  with assms(2) have "\<not> isspace (hd s)" "\<not> isspace (last s)" by (metis digit_not_space)+
  with ne have "strip s = s" by (rule strip_fixed)
  with assms(1) show ?thesis by (simp add: zfill_long)
qed

text \<open>
  Claim C8. The identifier of a reference row is \<open>raw.strip().zfill(5)\<close>. Applying this
  normalisation to its own result gives the same string, for every raw string; and a
  string of exactly five decimal digits is left as it is.
\<close>

theorem normalisation_idempotent:
  "zfill 5 (strip (zfill 5 (strip raw))) = zfill 5 (strip raw)
   \<and> (length s = 5 \<and> (\<forall>c\<in>set s. c \<in> set ''0123456789'') \<longrightarrow> zfill 5 (strip s) = s)"
  using normalise_twice normalise_digits by blast

theorem normalisation_idempotent_witness:
  "length ''01234'' = 5 \<and> set ''01234'' \<subseteq> set ''0123456789''
   \<and> zfill 5 (strip ''01234'') = ''01234''
   \<and> zfill 5 (strip '' 12 '') = ''00012''
   \<and> zfill 5 (strip (zfill 5 (strip '' 12 ''))) = ''00012''"
proof -
  have h: "length ''01234'' = 5 \<and> (\<forall>c\<in>set ''01234''. c \<in> set ''0123456789'')" by simp
  have v: "zfill 5 (strip '' 12 '') = ''00012''" by code_simp
  have s: "set ''01234'' \<subseteq> set ''0123456789''" by simp
  from normalisation_idempotent [of "'' 12 ''" "''01234''"] h v
  have "zfill 5 (strip ''01234'') = ''01234''
      \<and> zfill 5 (strip (zfill 5 (strip '' 12 ''))) = ''00012''" by simp
  with h s v show ?thesis by blast
qed

section \<open>The auditor's sets and exit status\<close>

text \<open>
  Claim C1. For finite sets R of reference identifiers and F of forecast identifiers,
  \<open>missing\<close> lists exactly the elements of (R - F) - EXPECTED_ABSENT and
  \<open>unexpected_present\<close> exactly those of F \<inter> EXPECTED_ABSENT, both in ascending order
  without repetition; so an identifier of R that is expected absent is never listed as
  missing, whatever F is.
\<close>

theorem missing_and_unexpected_present:
  assumes "finite R" "finite F"
  shows "set (missing R F) = (R - F) - EXPECTED_ABSENT
       \<and> sorted (missing R F) \<and> distinct (missing R F)
       \<and> set (unexpected_present F) = F \<inter> EXPECTED_ABSENT
       \<and> sorted (unexpected_present F) \<and> distinct (unexpected_present F)
       \<and> (\<forall>x. x \<in> R \<and> x \<in> EXPECTED_ABSENT \<longrightarrow> x \<notin> set (missing R F))"
  using assms by (simp add: missing_def unexpected_present_def)

theorem missing_and_unexpected_present_witness:
  "finite {''01234'', ''05000'', ''11903''} \<and> finite {''05000'', ''53000''}
   \<and> ''11903'' \<in> {''01234'', ''05000'', ''11903''} \<and> ''11903'' \<in> EXPECTED_ABSENT
   \<and> ''11903'' \<notin> set (missing {''01234'', ''05000'', ''11903''} {''05000'', ''53000''})
   \<and> missing {''01234'', ''05000'', ''11903''} {''05000'', ''53000''} = [''01234'']
   \<and> unexpected_present {''05000'', ''53000''} = [''53000'']"
proof -
  have f: "finite {''01234'', ''05000'', ''11903''}" "finite {''05000'', ''53000''}" by simp_all
  have e: "''11903'' \<in> EXPECTED_ABSENT" by code_simp
  have m: "missing {''01234'', ''05000'', ''11903''} {''05000'', ''53000''} = [''01234'']"
    by code_simp
  have u: "unexpected_present {''05000'', ''53000''} = [''53000'']" by code_simp
  from missing_and_unexpected_present [OF f] e
  have "''11903'' \<notin> set (missing {''01234'', ''05000'', ''11903''} {''05000'', ''53000''})"
    by blast
  with f e m u show ?thesis by simp
qed

lemma stdout_lines_append: "stdout_lines (xs @ ys) = stdout_lines xs @ stdout_lines ys"
  by (simp add: stdout_lines_def)

lemma stdout_lines_Print: "stdout_lines (map Print ls) = ls"
  by (induction ls) (simp_all add: stdout_lines_def)

lemma load_reference_ids_silent: "stdout_lines (fst (load_reference_ids fs p)) = []"
  by (simp add: load_reference_ids_def stdout_lines_def gzip_open_def split: option.splits sum.splits)

lemma load_forecast_ids_silent: "stdout_lines (fst (load_forecast_ids fs p)) = []"
  by (simp add: load_forecast_ids_def stdout_lines_def plain_open_def split: option.splits sum.splits)

lemma report_status: "snd (report R F) = (if missing R F = [] then 0 else 1)"
  by (simp add: report_def Let_def)

lemma report_warning:
  "(''WARNING: expected-absent IDs present in forecast data: '' @ join '', '' (unexpected_present F)
      \<in> set (fst (report R F))) \<longleftrightarrow> unexpected_present F \<noteq> []"
  by (simp add: report_def Let_def)

lemma example_reference_ids:
  "load_reference_ids example_fs (REF_PATH ''/repo'') =
     ([FileExists (REF_PATH ''/repo''), FileOpen (REF_PATH ''/repo'')],
      Inr {''01234'', ''05000'', ''11903''})"
  by code_simp

lemma example_forecast_ids:
  "load_forecast_ids example_fs (FORECAST_PATH ''/repo'') =
     ([FileExists (FORECAST_PATH ''/repo''), FileOpen (FORECAST_PATH ''/repo'')],
      Inr {''05000'', ''53000''})"
  by code_simp

text \<open>
  Claim C2. When both files load, the exit status of the auditor is 0 if \<open>missing\<close> is
  empty and 1 otherwise: it is a function of \<open>missing\<close> alone. What the run prints is the
  report, and the warning line is among the printed lines exactly when
  \<open>unexpected_present\<close> is not empty.
\<close>

theorem exit_status_follows_missing:
  assumes "load_reference_ids fs (REF_PATH root) = (ev1, Inr R)"
    and "load_forecast_ids fs (FORECAST_PATH root) = (ev2, Inr F)"
  shows "auditor_exit_status fs root = (if missing R F = [] then 0 else 1)
       \<and> stdout_lines (fst (auditor_main fs root)) = fst (report R F)
       \<and> ((''WARNING: expected-absent IDs present in forecast data: ''
              @ join '', '' (unexpected_present F)
            \<in> set (stdout_lines (fst (auditor_main fs root)))) \<longleftrightarrow> unexpected_present F \<noteq> [])"
proof -
  have m: "auditor_main fs root = (ev1 @ ev2 @ map Print (fst (report R F)), Inr (snd (report R F)))"
    using assms by (simp add: auditor_main_def split: prod.splits)
  have s1: "stdout_lines ev1 = []"
    using load_reference_ids_silent [of fs "REF_PATH root"] assms(1) by simp
  have s2: "stdout_lines ev2 = []"
    using load_forecast_ids_silent [of fs "FORECAST_PATH root"] assms(2) by simp
  have out: "stdout_lines (fst (auditor_main fs root)) = fst (report R F)"
    by (simp add: m stdout_lines_append stdout_lines_Print s1 s2)
  have st: "auditor_exit_status fs root = (if missing R F = [] then 0 else 1)"
    by (simp add: auditor_exit_status_def m exit_status_def report_status)
  show ?thesis using out st report_warning [of F R] by simp
qed

theorem exit_status_follows_missing_witness:
  "auditor_exit_status example_fs ''/repo'' = 1
   \<and> ''WARNING: expected-absent IDs present in forecast data: 53000''
       \<in> set (stdout_lines (fst (auditor_main example_fs ''/repo'')))
   \<and> auditor_exit_status covered_fs ''/repo'' = 0
   \<and> ''WARNING: expected-absent IDs present in forecast data: 53000''
       \<in> set (stdout_lines (fst (auditor_main covered_fs ''/repo'')))"
proof -
  have m: "missing {''01234'', ''05000'', ''11903''} {''05000'', ''53000''} = [''01234'']"
    by code_simp
  have u: "unexpected_present {''05000'', ''53000''} = [''53000'']" by code_simp
  have r: "load_reference_ids covered_fs (REF_PATH ''/repo'') =
     ([FileExists (REF_PATH ''/repo''), FileOpen (REF_PATH ''/repo'')], Inr {''05000''})"
    by code_simp
  have f: "load_forecast_ids covered_fs (FORECAST_PATH ''/repo'') =
     ([FileExists (FORECAST_PATH ''/repo''), FileOpen (FORECAST_PATH ''/repo'')],
      Inr {''05000'', ''53000''})"
    by code_simp
  have m': "missing {''05000''} {''05000'', ''53000''} = []" by code_simp
  note ex = exit_status_follows_missing [OF example_reference_ids example_forecast_ids]
  note cov = exit_status_follows_missing [OF r f]
  from ex [THEN conjunct1] m
  have a1: "auditor_exit_status example_fs ''/repo'' = 1" by simp
  from ex [THEN conjunct2, THEN conjunct2] u
  have a2: "''WARNING: expected-absent IDs present in forecast data: 53000''
       \<in> set (stdout_lines (fst (auditor_main example_fs ''/repo'')))" by simp
  from cov [THEN conjunct1] m'
  have b1: "auditor_exit_status covered_fs ''/repo'' = 0" by simp
  from cov [THEN conjunct2, THEN conjunct2] u
  have b2: "''WARNING: expected-absent IDs present in forecast data: 53000''
       \<in> set (stdout_lines (fst (auditor_main covered_fs ''/repo'')))" by simp
  from a1 a2 b1 b2 show ?thesis by blast
qed

section \<open>Failure of the reference load\<close>

lemma paths_differ: "REF_PATH root \<noteq> FORECAST_PATH root"
  by (simp add: REF_PATH_def FORECAST_PATH_def)

lemma load_reference_ids_absent:
  "fs p = None \<Longrightarrow>
   load_reference_ids fs p =
     ([FileExists p, PrintErr (''ERROR: reference file not found: '' @ p)], Inl (SysExit 2))"
  by (simp add: load_reference_ids_def path_exists_def)

lemma load_reference_ids_no_column:
  assumes "fs p = Some c" "read_records (GzipText c) = Inr recs"
    and "\<forall>header. fieldnames recs = Some header \<longrightarrow> ''CUMUN'' \<notin> set header"
  shows "load_reference_ids fs p =
     ([FileExists p, FileOpen p, PrintErr ''ERROR: reference file missing CUMUN header''],
      Inl (SysExit 2))"
proof -
  from assms(3) have "\<not> has_column recs ''CUMUN''"
    by (cases "fieldnames recs") (simp_all add: has_column_def)
  with assms(1,2) show ?thesis
    by (simp add: load_reference_ids_def path_exists_def gzip_open_def)
qed

text \<open>
  Claim C4. If the reference file does not exist, or it can be read and its header has
  no CUMUN column (a file without any line has no header at all), the auditor exits with
  status 2, has printed nothing to standard output, and has neither tested nor opened
  the forecast file.
\<close>

theorem reference_failure_exits_first:
  assumes "fs (REF_PATH root) = None
         \<or> (\<exists>c recs. fs (REF_PATH root) = Some c \<and> read_records (GzipText c) = Inr recs
               \<and> (\<forall>header. fieldnames recs = Some header \<longrightarrow> ''CUMUN'' \<notin> set header))"
  shows "auditor_exit_status fs root = 2
       \<and> stdout_lines (fst (auditor_main fs root)) = []
       \<and> FileExists (FORECAST_PATH root) \<notin> set (fst (auditor_main fs root))
       \<and> FileOpen (FORECAST_PATH root) \<notin> set (fst (auditor_main fs root))"
proof -
  from assms have "\<exists>evs. load_reference_ids fs (REF_PATH root) = (evs, Inl (SysExit 2))
      \<and> stdout_lines evs = []
      \<and> FileExists (FORECAST_PATH root) \<notin> set evs \<and> FileOpen (FORECAST_PATH root) \<notin> set evs"
  proof
    assume "fs (REF_PATH root) = None"
    then show ?thesis
      using paths_differ [of root]
      by (simp add: load_reference_ids_absent stdout_lines_def)
  next
    assume "\<exists>c recs. fs (REF_PATH root) = Some c \<and> read_records (GzipText c) = Inr recs
               \<and> (\<forall>header. fieldnames recs = Some header \<longrightarrow> ''CUMUN'' \<notin> set header)"
    then obtain c recs where "fs (REF_PATH root) = Some c" "read_records (GzipText c) = Inr recs"
      "\<forall>header. fieldnames recs = Some header \<longrightarrow> ''CUMUN'' \<notin> set header" by blast
    then show ?thesis
      using paths_differ [of root]
      by (simp add: load_reference_ids_no_column stdout_lines_def)
  qed
  then obtain evs where l: "load_reference_ids fs (REF_PATH root) = (evs, Inl (SysExit 2))"
    and e: "stdout_lines evs = []" "FileExists (FORECAST_PATH root) \<notin> set evs"
      "FileOpen (FORECAST_PATH root) \<notin> set evs" by blast
  from l have "auditor_main fs root = (evs, Inl (SysExit 2))" by (simp add: auditor_main_def)
  with e show ?thesis by (simp add: auditor_exit_status_def exit_status_def)
qed

theorem reference_failure_exits_first_witness:
  "headerless_fs (REF_PATH ''/repo'') = Some (Gzip [[''CODE'', ''NAME''], [''1234'', ''A'']])
   \<and> read_records (GzipText (Gzip [[''CODE'', ''NAME''], [''1234'', ''A'']]))
       = Inr [[''CODE'', ''NAME''], [''1234'', ''A'']]
   \<and> fieldnames [[''CODE'', ''NAME''], [''1234'', ''A'']] = Some [''CODE'', ''NAME'']
   \<and> ''CUMUN'' \<notin> set [''CODE'', ''NAME'']
   \<and> auditor_exit_status headerless_fs ''/repo'' = 2
   \<and> stdout_lines (fst (auditor_main headerless_fs ''/repo'')) = []
   \<and> FileOpen (FORECAST_PATH ''/repo'') \<notin> set (fst (auditor_main headerless_fs ''/repo''))
   \<and> auditor_exit_status (\<lambda>p. None) ''/repo'' = 2
   \<and> stdout_lines (fst (auditor_main (\<lambda>p. None) ''/repo'')) = []"
proof -
  have c: "headerless_fs (REF_PATH ''/repo'') = Some (Gzip [[''CODE'', ''NAME''], [''1234'', ''A'']])"
    by (simp add: headerless_fs_def)
  have r: "read_records (GzipText (Gzip [[''CODE'', ''NAME''], [''1234'', ''A'']]))
       = Inr [[''CODE'', ''NAME''], [''1234'', ''A'']]" by simp
  have h: "fieldnames [[''CODE'', ''NAME''], [''1234'', ''A'']] = Some [''CODE'', ''NAME'']"
    by (simp add: fieldnames_def)
  have n: "''CUMUN'' \<notin> set [''CODE'', ''NAME'']" by simp
  have "headerless_fs (REF_PATH ''/repo'') = None
         \<or> (\<exists>c recs. headerless_fs (REF_PATH ''/repo'') = Some c \<and> read_records (GzipText c) = Inr recs
               \<and> (\<forall>header. fieldnames recs = Some header \<longrightarrow> ''CUMUN'' \<notin> set header))"
    using c r h n by auto
  from reference_failure_exits_first [of headerless_fs "''/repo''", OF this]
  have a: "auditor_exit_status headerless_fs ''/repo'' = 2
   \<and> stdout_lines (fst (auditor_main headerless_fs ''/repo'')) = []
   \<and> FileOpen (FORECAST_PATH ''/repo'') \<notin> set (fst (auditor_main headerless_fs ''/repo''))"
    by simp
  have "(\<lambda>p. None :: file_content option) (REF_PATH ''/repo'') = None
         \<or> (\<exists>c recs. (\<lambda>p. None) (REF_PATH ''/repo'') = Some c \<and> read_records (GzipText c) = Inr recs
               \<and> (\<forall>header. fieldnames recs = Some header \<longrightarrow> ''CUMUN'' \<notin> set header))"
    by simp
  from reference_failure_exits_first [of "\<lambda>p. None" "''/repo''", OF this]
  have b: "auditor_exit_status (\<lambda>p. None) ''/repo'' = 2
   \<and> stdout_lines (fst (auditor_main (\<lambda>p. None) ''/repo'')) = []"
    by simp
  from a b c r h n show ?thesis by simp
qed

section \<open>The loops of the summarizer\<close>

lemma keep_min_Some: "keep_min (Some m) d = Some (min d m)"
  by (auto simp: keep_min_def min_def)

lemma keep_max_Some: "keep_max (Some m) d = Some (max d m)"
  by (auto simp: keep_max_def max_def)

lemma fold_keep_min_Some: "fold (\<lambda>d m. keep_min m d) ds (Some m) = Some (Min (set (m # ds)))"
proof -
  have "fold (\<lambda>d m. keep_min m d) ds (Some m) = Some (fold min ds m)"
    by (induction ds arbitrary: m) (simp_all add: keep_min_Some)
  then show ?thesis by (simp only: Min.set_eq_fold)
qed

lemma fold_keep_max_Some: "fold (\<lambda>d m. keep_max m d) ds (Some m) = Some (Max (set (m # ds)))"
proof -
  have "fold (\<lambda>d m. keep_max m d) ds (Some m) = Some (fold max ds m)"
    by (induction ds arbitrary: m) (simp_all add: keep_max_Some)
  then show ?thesis by (simp only: Max.set_eq_fold)
qed

lemma fold_keep_min_None:
  "fold (\<lambda>d m. keep_min m d) ds None = (if ds = [] then None else Some (Min (set ds)))"
proof (cases ds)
  case Nil then show ?thesis by simp
next
  case (Cons d ds')
  have "keep_min None d = Some d" by (simp add: keep_min_def)
  with Cons show ?thesis by (simp add: fold_keep_min_Some del: set_simps)
qed

lemma fold_keep_max_None:
  "fold (\<lambda>d m. keep_max m d) ds None = (if ds = [] then None else Some (Max (set ds)))"
proof (cases ds)
  case Nil then show ?thesis by simp
next
  case (Cons d ds')
  have "keep_max None d = Some d" by (simp add: keep_max_def)
  with Cons show ?thesis by (simp add: fold_keep_max_Some del: set_simps)
qed

lemma latest_keep_max: "c \<noteq> [] \<Longrightarrow> latest cur (Some c) = keep_max cur c"
  by (simp add: latest_def keep_max_def split: option.splits)

lemma daily_rows_fold:
  "daily_rows dc sc rs (pd, mn, mx, n) =
     (fold (\<lambda>p. add_station (fst p) (snd p)) (keyed dc sc rs) pd,
      fold (\<lambda>d m. keep_min m d) (map fst (keyed dc sc rs)) mn,
      fold (\<lambda>d m. keep_max m d) (map fst (keyed dc sc rs)) mx,
      n + length rs)"
  by (induction rs arbitrary: pd mn mx n) (simp_all add: keyed_def split: option.splits)

lemma hourly_rows_fold:
  "hourly_rows rs (pd, mn, mx, n) =
     (fold (\<lambda>p. add_station (take 10 (fst p)) (snd p)) (keyed ''fint'' ''idema'' rs) pd,
      fold (\<lambda>d m. keep_min m d) (map fst (keyed ''fint'' ''idema'' rs)) mn,
      fold (\<lambda>d m. keep_max m d) (map fst (keyed ''fint'' ''idema'' rs)) mx,
      n + length rs)"
  by (induction rs arbitrary: pd mn mx n) (simp_all add: keyed_def split: option.splits)

lemma fold_latest:
  "fold (\<lambda>r m. latest m (r ''collected_at'')) rs ca
     = fold (\<lambda>c m. keep_max m c) (values_of ''collected_at'' rs) ca"
proof (induction rs arbitrary: ca)
  case Nil then show ?case by (simp add: values_of_def)
next
  case (Cons r rs)
  have step: "latest ca (r ''collected_at'') =
      fold (\<lambda>c m. keep_max m c)
        (case r ''collected_at'' of None \<Rightarrow> [] | Some v \<Rightarrow> if v = [] then [] else [v]) ca"
    by (cases "r ''collected_at''") (auto simp: latest_def keep_max_def split: option.splits)
  have "values_of ''collected_at'' (r # rs) =
      (case r ''collected_at'' of None \<Rightarrow> [] | Some v \<Rightarrow> if v = [] then [] else [v])
      @ values_of ''collected_at'' rs"
    by (simp add: values_of_def)
  then show ?case by (simp add: Cons step)
qed

lemma forecast_day_rows_fold:
  "forecast_day_rows rs (pd, mn, mx, ca, n) =
     (fold add_one (values_of ''fecha'' rs) pd,
      fold (\<lambda>d m. keep_min m d) (values_of ''fecha'' rs) mn,
      fold (\<lambda>d m. keep_max m d) (values_of ''fecha'' rs) mx,
      fold (\<lambda>r m. latest m (r ''collected_at'')) rs ca,
      n + length rs)"
  by (induction rs arbitrary: pd mn mx ca n) (simp_all add: values_of_def split: option.splits)

lemma map_of_add_station:
  "map_of (add_station d s pd) =
     (map_of pd)(d \<mapsto> insert s (case map_of pd d of None \<Rightarrow> {} | Some S \<Rightarrow> S))"
  by (simp add: add_station_def update_conv')

lemma map_of_add_one:
  "map_of (add_one d pd) = (map_of pd)(d \<mapsto> (case map_of pd d of None \<Rightarrow> 0 | Some n \<Rightarrow> n) + 1)"
  by (simp add: add_one_def update_conv')

lemma fold_add_station_map_of:
  "map_of (fold (\<lambda>p. add_station (f (fst p)) (snd p)) ps pd) day =
     (if day \<in> (\<lambda>p. f (fst p)) ` set ps
      then Some ((case map_of pd day of None \<Rightarrow> {} | Some S \<Rightarrow> S)
                 \<union> snd ` {p \<in> set ps. f (fst p) = day})
      else map_of pd day)"
proof (induction ps arbitrary: pd)
  case Nil then show ?case by simp
next
  case (Cons p ps)
  show ?case
  proof (cases "f (fst p) = day")
    case True
    define A where "A = {q \<in> set ps. f (fst q) = day}"
    define S0 where "S0 = (case map_of pd day of None \<Rightarrow> {} | Some S \<Rightarrow> S)"
    have s: "{q \<in> set (p # ps). f (fst q) = day} = insert p A"
      using True by (auto simp: A_def)
    have e: "A = {}" if "day \<notin> (\<lambda>p. f (fst p)) ` set ps"
      using that by (auto simp: image_iff A_def)
    have m: "map_of (add_station day (snd p) pd) day = Some (insert (snd p) S0)"
      by (simp add: map_of_add_station S0_def)
    have l: "map_of (fold (\<lambda>p. add_station (f (fst p)) (snd p)) (p # ps) pd) day =
        (if day \<in> (\<lambda>p. f (fst p)) ` set ps then Some (insert (snd p) S0 \<union> snd ` A)
         else Some (insert (snd p) S0))"
      using True by (simp add: Cons m A_def)
    have r: "day \<in> (\<lambda>p. f (fst p)) ` set (p # ps)" using True by (simp add: image_iff)
    show ?thesis
      unfolding l
      using r e by (simp only: s if_True S0_def [symmetric]) auto
  next
    case False
    have "{q \<in> set (p # ps). f (fst q) = day} = {q \<in> set ps. f (fst q) = day}"
      using False by auto
    then show ?thesis
      using False by (simp add: Cons map_of_add_station)
  qed
qed

lemma fold_add_one_map_of:
  "map_of (fold add_one ds pd) day =
     (if day \<in> set ds
      then Some ((case map_of pd day of None \<Rightarrow> 0 | Some n \<Rightarrow> n) + count_list ds day)
      else map_of pd day)"
  by (induction ds arbitrary: pd) (auto simp: map_of_add_one split: option.splits)

lemma distinct_add_station: "distinct (map fst pd) \<Longrightarrow> distinct (map fst (add_station d s pd))"
  by (simp add: add_station_def distinct_update)

lemma distinct_fold_add_station:
  "distinct (map fst pd) \<Longrightarrow> distinct (map fst (fold (\<lambda>p. add_station (f (fst p)) (snd p)) ps pd))"
  by (induction ps arbitrary: pd) (simp_all add: distinct_add_station)

lemma distinct_fold_add_one:
  "distinct (map fst pd) \<Longrightarrow> distinct (map fst (fold add_one ds pd))"
  by (induction ds arbitrary: pd) (simp_all add: add_one_def distinct_update)

lemma sum_add_one: "sum_list (map snd (add_one d pd)) = sum_list (map snd pd) + 1"
  unfolding add_one_def
  by (induction pd) auto

lemma sum_fold_add_one: "sum_list (map snd (fold add_one ds pd)) = sum_list (map snd pd) + length ds"
  by (induction ds arbitrary: pd) (simp_all add: sum_add_one)

lemma finite_add_station:
  "\<forall>S \<in> snd ` set pd. finite S \<Longrightarrow> \<forall>S \<in> snd ` set (add_station d s pd). finite S"
  unfolding add_station_def
  by (induction pd) (auto split: option.splits dest: map_of_SomeD)

lemma sum_add_station:
  "\<forall>S \<in> snd ` set pd. finite S \<Longrightarrow>
   sum_list (map (\<lambda>p. card (snd p)) (add_station d s pd)) \<le> sum_list (map (\<lambda>p. card (snd p)) pd) + 1"
  unfolding add_station_def
  by (induction pd) (auto simp: card_insert_if split: option.splits)

lemma sum_fold_add_station:
  "\<forall>S \<in> snd ` set pd. finite S \<Longrightarrow>
   (\<forall>S \<in> snd ` set (fold (\<lambda>p. add_station (f (fst p)) (snd p)) ps pd). finite S)
   \<and> sum_list (map (\<lambda>p. card (snd p)) (fold (\<lambda>p. add_station (f (fst p)) (snd p)) ps pd))
      \<le> sum_list (map (\<lambda>p. card (snd p)) pd) + length ps"
proof (induction ps arbitrary: pd)
  case Nil then show ?case by simp
next
  case (Cons p ps)
  from Cons.prems have f: "\<forall>S \<in> snd ` set (add_station (f (fst p)) (snd p) pd). finite S"
    by (rule finite_add_station)
  from Cons.IH [OF f] sum_add_station [OF Cons.prems, of "f (fst p)" "snd p"]
  show ?case by simp
qed

lemma open_read_gzip:
  "fs path = Some (Gzip recs) \<Longrightarrow> open_text fs path = Inr (GzipText (Gzip recs))"
  by (simp add: open_text_def gzip_open_def)

lemma summarise_daily_file_gzip:
  "fs path = Some (Gzip recs) \<Longrightarrow>
   summarise_daily_file fs path dc sc = Inr (scan_daily dc sc (dict_rows recs))"
  by (simp add: summarise_daily_file_def open_read_gzip)

lemma summarise_hourly_file_gzip:
  "fs path = Some (Gzip recs) \<Longrightarrow> summarise_hourly_file fs path = Inr (scan_hourly (dict_rows recs))"
  by (simp add: summarise_hourly_file_def open_read_gzip)

lemma summarise_forecast_gzip:
  "fs path = Some (Gzip recs) \<Longrightarrow> summarise_forecast fs path = Inr (scan_forecast (dict_rows recs))"
  by (simp add: summarise_forecast_def open_read_gzip)

lemma scan_daily_eq:
  "scan_daily dc sc rs =
     \<lparr>rows = length rs,
      min_date = (if keyed dc sc rs = [] then None else Some (Min (set (map fst (keyed dc sc rs))))),
      max_date = (if keyed dc sc rs = [] then None else Some (Max (set (map fst (keyed dc sc rs))))),
      min_ts = None, max_ts = None, latest_collected_at = None,
      per_day_counts = Some (map (\<lambda>(day, stations). (day, card stations))
                              (fold (\<lambda>p. add_station (fst p) (snd p)) (keyed dc sc rs) [])),
      per_day_rows = None\<rparr>"
  by (simp add: scan_daily_def daily_rows_fold fold_keep_min_None fold_keep_max_None)

lemma scan_hourly_eq:
  "scan_hourly rs =
     \<lparr>rows = length rs, min_date = None, max_date = None,
      min_ts = (if keyed ''fint'' ''idema'' rs = [] then None
                else Some (Min (set (map fst (keyed ''fint'' ''idema'' rs))))),
      max_ts = (if keyed ''fint'' ''idema'' rs = [] then None
                else Some (Max (set (map fst (keyed ''fint'' ''idema'' rs))))),
      latest_collected_at = None,
      per_day_counts = Some (map (\<lambda>(day, stations). (day, card stations))
                              (fold (\<lambda>p. add_station (take 10 (fst p)) (snd p))
                                 (keyed ''fint'' ''idema'' rs) [])),
      per_day_rows = None\<rparr>"
  by (simp add: scan_hourly_def hourly_rows_fold fold_keep_min_None fold_keep_max_None)

lemma scan_forecast_eq:
  "scan_forecast rs =
     \<lparr>rows = length rs,
      min_date = (if values_of ''fecha'' rs = [] then None
                  else Some (Min (set (values_of ''fecha'' rs)))),
      max_date = (if values_of ''fecha'' rs = [] then None
                  else Some (Max (set (values_of ''fecha'' rs)))),
      min_ts = None, max_ts = None,
      latest_collected_at = (if values_of ''collected_at'' rs = [] then None
                             else Some (Max (set (values_of ''collected_at'' rs)))),
      per_day_counts = None,
      per_day_rows = Some (fold add_one (values_of ''fecha'' rs) [])\<rparr>"
  by (simp add: scan_forecast_def forecast_day_rows_fold fold_latest fold_keep_min_None
      fold_keep_max_None)

lemma values_of_member:
  "day \<in> set (values_of col rs) \<longleftrightarrow> day \<noteq> [] \<and> (\<exists>r\<in>set rs. r col = Some day)"
  by (induction rs) (auto simp: values_of_def split: option.splits)

lemma count_values_of:
  "day \<noteq> [] \<Longrightarrow> count_list (values_of col rs) day = length [r \<leftarrow> rs. r col = Some day]"
  by (induction rs) (auto simp: values_of_def split: option.splits)

section \<open>The forecast summary\<close>

text \<open>
  Claim C5. For a forecast file that is read (a gzip file), \<open>per_day_rows\<close> maps every
  non-empty date that occurs to the number of rows bearing it and no other key;
  \<open>min_date\<close> and \<open>max_date\<close> are the least and the greatest of the non-empty dates in
  the order on strings, and \<open>latest_collected_at\<close> is the greatest of the non-empty
  \<open>collected_at\<close> values (each is \<open>None\<close> when there is no such value).
\<close>

theorem forecast_summary:
  assumes "fs path = Some (Gzip recs)"
  shows "\<exists>st per_day.
      summarise_forecast fs path = Inr st \<and> per_day_rows st = Some per_day
    \<and> distinct (map fst per_day)
    \<and> (\<forall>day. map_of per_day day =
          (if day \<noteq> [] \<and> (\<exists>r\<in>set (dict_rows recs). r ''fecha'' = Some day)
           then Some (length [r \<leftarrow> dict_rows recs. r ''fecha'' = Some day])
           else None))
    \<and> min_date st = (if values_of ''fecha'' (dict_rows recs) = [] then None
                     else Some (Min (set (values_of ''fecha'' (dict_rows recs)))))
    \<and> max_date st = (if values_of ''fecha'' (dict_rows recs) = [] then None
                     else Some (Max (set (values_of ''fecha'' (dict_rows recs)))))
    \<and> latest_collected_at st =
        (if values_of ''collected_at'' (dict_rows recs) = [] then None
         else Some (Max (set (values_of ''collected_at'' (dict_rows recs)))))"
proof -
  define rs where "rs = dict_rows recs"
  define per_day where "per_day = fold add_one (values_of ''fecha'' rs) []"
  have s: "summarise_forecast fs path = Inr (scan_forecast rs)"
    using assms by (simp add: summarise_forecast_gzip rs_def)
  have p: "per_day_rows (scan_forecast rs) = Some per_day"
    by (simp add: scan_forecast_eq per_day_def)
  have d: "distinct (map fst per_day)"
    unfolding per_day_def by (rule distinct_fold_add_one) simp
  have m: "map_of per_day day =
          (if day \<noteq> [] \<and> (\<exists>r\<in>set rs. r ''fecha'' = Some day)
           then Some (length [r \<leftarrow> rs. r ''fecha'' = Some day])
           else None)" for day
    by (simp add: per_day_def fold_add_one_map_of values_of_member count_values_of)
  show ?thesis
    using s p d m unfolding rs_def [symmetric]
    by (intro exI [of _ "scan_forecast rs"] exI [of _ per_day]) (simp add: scan_forecast_eq)
qed

theorem forecast_summary_witness:
  "summarizer_fs ''forecast.csv.gz'' = Some (Gzip forecast_example)
   \<and> summarise_forecast summarizer_fs ''forecast.csv.gz'' =
       Inr \<lparr>rows = 4, min_date = Some ''2024-01-01'', max_date = Some ''2024-01-02'',
            min_ts = None, max_ts = None,
            latest_collected_at = Some ''2024-01-01T12:00:00'',
            per_day_counts = None,
            per_day_rows = Some [(''2024-01-01'', 3), (''2024-01-02'', 1)]\<rparr>
   \<and> length [r \<leftarrow> dict_rows forecast_example. r ''fecha'' = Some ''2024-01-01''] = 3
   \<and> length [r \<leftarrow> dict_rows forecast_example. r ''fecha'' = Some ''2024-01-02''] = 1
   \<and> Min (set (values_of ''fecha'' (dict_rows forecast_example))) = ''2024-01-01''
   \<and> Max (set (values_of ''fecha'' (dict_rows forecast_example))) = ''2024-01-02''"
proof -
  have h: "summarizer_fs ''forecast.csv.gz'' = Some (Gzip forecast_example)"
    by (simp add: summarizer_fs_def)
  have v: "summarise_forecast summarizer_fs ''forecast.csv.gz'' =
       Inr \<lparr>rows = 4, min_date = Some ''2024-01-01'', max_date = Some ''2024-01-02'',
            min_ts = None, max_ts = None,
            latest_collected_at = Some ''2024-01-01T12:00:00'',
            per_day_counts = None,
            per_day_rows = Some [(''2024-01-01'', 3), (''2024-01-02'', 1)]\<rparr>"
    by code_simp
  have ne: "values_of ''fecha'' (dict_rows forecast_example) \<noteq> []" by code_simp
  have e1: "\<exists>r\<in>set (dict_rows forecast_example). r ''fecha'' = Some ''2024-01-01''" by code_simp
  have e2: "\<exists>r\<in>set (dict_rows forecast_example). r ''fecha'' = Some ''2024-01-02''" by code_simp
  from forecast_summary [of summarizer_fs "''forecast.csv.gz''" forecast_example, OF h]
  obtain st per_day where
    s: "summarise_forecast summarizer_fs ''forecast.csv.gz'' = Inr st"
    and p: "per_day_rows st = Some per_day"
    and m: "\<forall>day. map_of per_day day =
          (if day \<noteq> [] \<and> (\<exists>r\<in>set (dict_rows forecast_example). r ''fecha'' = Some day)
           then Some (length [r \<leftarrow> dict_rows forecast_example. r ''fecha'' = Some day])
           else None)"
    and mn: "min_date st = (if values_of ''fecha'' (dict_rows forecast_example) = [] then None
                     else Some (Min (set (values_of ''fecha'' (dict_rows forecast_example)))))"
    and mx: "max_date st = (if values_of ''fecha'' (dict_rows forecast_example) = [] then None
                     else Some (Max (set (values_of ''fecha'' (dict_rows forecast_example)))))"
    by blast
  from s v p have pd: "per_day = [(''2024-01-01'', 3), (''2024-01-02'', 1)]" by auto
  from m [rule_format, of "''2024-01-01''"] e1 pd
  have c1: "length [r \<leftarrow> dict_rows forecast_example. r ''fecha'' = Some ''2024-01-01''] = 3"
    by simp
  from m [rule_format, of "''2024-01-02''"] e2 pd
  have c2: "length [r \<leftarrow> dict_rows forecast_example. r ''fecha'' = Some ''2024-01-02''] = 1"
    by simp
  from s v mn ne
  have c3: "Min (set (values_of ''fecha'' (dict_rows forecast_example))) = ''2024-01-01''"
    by auto
  from s v mx ne
  have c4: "Max (set (values_of ''fecha'' (dict_rows forecast_example))) = ''2024-01-02''"
    by auto
  from h v c1 c2 c3 c4 show ?thesis by blast
qed

section \<open>Bounds on the summaries\<close>

lemma keyed_filter_length:
  "length (filter (\<lambda>p. f (fst p) = day) (keyed dc sc rs))
     = length [r \<leftarrow> rs. case r dc of None \<Rightarrow> False | Some d \<Rightarrow> d \<noteq> [] \<and> f d = day]"
  by (induction rs) (auto simp: keyed_def split: option.splits)

lemma filter_length_mono:
  "(\<And>x. P x \<Longrightarrow> Q x) \<Longrightarrow> length (filter P xs) \<le> length (filter Q xs)"
  by (induction xs) auto

lemma map_of_counts:
  "map_of (map (\<lambda>(day, stations). (day, card stations)) pd) day = map_option card (map_of pd day)"
  by (induction pd) auto

lemma count_le_rows:
  assumes "(day, n) \<in> set (map (\<lambda>(day, stations). (day, card stations))
                              (fold (\<lambda>p. add_station (f (fst p)) (snd p)) (keyed dc sc rs) []))"
  shows "n \<le> length [r \<leftarrow> rs. case r dc of None \<Rightarrow> False | Some d \<Rightarrow> d \<noteq> [] \<and> f d = day]"
proof -
  define pd where "pd = fold (\<lambda>p. add_station (f (fst p)) (snd p)) (keyed dc sc rs) []"
  define A where "A = {p \<in> set (keyed dc sc rs). f (fst p) = day}"
  have d: "distinct (map fst pd)" unfolding pd_def by (rule distinct_fold_add_station) simp
  from assms obtain S where S: "(day, S) \<in> set pd" "n = card S" by (auto simp: pd_def)
  from d S(1) have "map_of pd day = Some S" by simp
  then have "S = snd ` A"
    by (simp add: pd_def fold_add_station_map_of A_def split: if_splits)
  moreover have "A = set (filter (\<lambda>p. f (fst p) = day) (keyed dc sc rs))" by (auto simp: A_def)
  ultimately have "n \<le> length (filter (\<lambda>p. f (fst p) = day) (keyed dc sc rs))"
    using S(2) by (metis List.finite_set card_image_le card_length le_trans)
  then show ?thesis by (simp add: keyed_filter_length)
qed

lemma Min_le_Max_list: "xs \<noteq> [] \<Longrightarrow> Min (set xs) \<le> Max (set xs)"
  by (metis List.finite_set Max_ge Min_le hd_in_set order_trans)

text \<open>
  Claim C6. For files that are read (gzip files): every per-day distinct-key count of the
  daily summary is at most the number of rows whose date is that day, every per-day
  count of the hourly summary is at most the number of rows whose non-empty timestamp
  starts with that day, and in each of the three summaries a minimum and a maximum that
  are both defined satisfy min \<le> max in the order on strings.
\<close>

theorem scan_bounds:
  assumes "fs daily_path = Some (Gzip daily_recs)"
    and "fs hourly_path = Some (Gzip hourly_recs)"
    and "fs forecast_path = Some (Gzip forecast_recs)"
  shows "\<exists>d h f cd ch.
      summarise_daily_file fs daily_path date_col station_col = Inr d \<and> per_day_counts d = Some cd
    \<and> summarise_hourly_file fs hourly_path = Inr h \<and> per_day_counts h = Some ch
    \<and> summarise_forecast fs forecast_path = Inr f
    \<and> (\<forall>(day, n) \<in> set cd. n \<le> length [r \<leftarrow> dict_rows daily_recs. r date_col = Some day])
    \<and> (\<forall>(day, n) \<in> set ch.
          n \<le> length [r \<leftarrow> dict_rows hourly_recs.
                        case r ''fint'' of None \<Rightarrow> False | Some t \<Rightarrow> t \<noteq> [] \<and> take 10 t = day])
    \<and> (\<forall>a b. min_date d = Some a \<and> max_date d = Some b \<longrightarrow> a \<le> b)
    \<and> (\<forall>a b. min_ts h = Some a \<and> max_ts h = Some b \<longrightarrow> a \<le> b)
    \<and> (\<forall>a b. min_date f = Some a \<and> max_date f = Some b \<longrightarrow> a \<le> b)"
proof -
  define rd where "rd = dict_rows daily_recs"
  define rh where "rh = dict_rows hourly_recs"
  define rf where "rf = dict_rows forecast_recs"
  define cd where "cd = map (\<lambda>(day, stations). (day, card stations))
                          (fold (\<lambda>p. add_station (fst p) (snd p)) (keyed date_col station_col rd) [])"
  define ch where "ch = map (\<lambda>(day, stations). (day, card stations))
                          (fold (\<lambda>p. add_station (take 10 (fst p)) (snd p))
                             (keyed ''fint'' ''idema'' rh) [])"
  have sd: "summarise_daily_file fs daily_path date_col station_col
              = Inr (scan_daily date_col station_col rd)"
    using assms(1) by (simp add: summarise_daily_file_gzip rd_def)
  have sh: "summarise_hourly_file fs hourly_path = Inr (scan_hourly rh)"
    using assms(2) by (simp add: summarise_hourly_file_gzip rh_def)
  have sf: "summarise_forecast fs forecast_path = Inr (scan_forecast rf)"
    using assms(3) by (simp add: summarise_forecast_gzip rf_def)
  have pd: "per_day_counts (scan_daily date_col station_col rd) = Some cd"
    by (simp add: scan_daily_eq cd_def)
  have ph: "per_day_counts (scan_hourly rh) = Some ch"
    by (simp add: scan_hourly_eq ch_def)
  have bd: "n \<le> length [r \<leftarrow> rd. r date_col = Some day]" if "(day, n) \<in> set cd" for day n
  proof -
    from that count_le_rows [of day n "\<lambda>x. x" date_col station_col rd]
    have "n \<le> length [r \<leftarrow> rd. case r date_col of None \<Rightarrow> False | Some d \<Rightarrow> d \<noteq> [] \<and> d = day]"
      by (simp add: cd_def)
    also have "\<dots> \<le> length [r \<leftarrow> rd. r date_col = Some day]"
      by (rule filter_length_mono) (auto split: option.splits)
    finally show ?thesis .
  qed
  have bh: "n \<le> length [r \<leftarrow> rh. case r ''fint'' of None \<Rightarrow> False | Some t \<Rightarrow> t \<noteq> [] \<and> take 10 t = day]"
    if "(day, n) \<in> set ch" for day n
    using that count_le_rows [of day n "take 10" "''fint''" "''idema''" rh] by (simp add: ch_def)
  have md: "a \<le> b" if "min_date (scan_daily date_col station_col rd) = Some a"
      "max_date (scan_daily date_col station_col rd) = Some b" for a b
    using that Min_le_Max_list [of "map fst (keyed date_col station_col rd)"]
    by (auto simp: scan_daily_eq split: if_splits)
  have mh: "a \<le> b" if "min_ts (scan_hourly rh) = Some a" "max_ts (scan_hourly rh) = Some b" for a b
    using that Min_le_Max_list [of "map fst (keyed ''fint'' ''idema'' rh)"]
    by (auto simp: scan_hourly_eq split: if_splits)
  have mf: "a \<le> b" if "min_date (scan_forecast rf) = Some a" "max_date (scan_forecast rf) = Some b" for a b
    using that Min_le_Max_list [of "values_of ''fecha'' rf"]
    by (auto simp: scan_forecast_eq split: if_splits)
  show ?thesis
    unfolding rd_def [symmetric] rh_def [symmetric] rf_def [symmetric]
    apply (rule exI [of _ "scan_daily date_col station_col rd"])
    apply (rule exI [of _ "scan_hourly rh"])
    apply (rule exI [of _ "scan_forecast rf"])
    apply (rule exI [of _ cd])
    apply (rule exI [of _ ch])
    using sd sh sf pd ph bd bh md mh mf apply blast
    done
qed

lemma daily_example_value:
  "summarise_daily_file summarizer_fs ''daily.csv.gz'' ''fecha'' ''indicativo'' =
     Inr \<lparr>rows = 6, min_date = Some ''2024-01-01'', max_date = Some ''2024-01-02'',
          min_ts = None, max_ts = None, latest_collected_at = None,
          per_day_counts = Some [(''2024-01-01'', 2), (''2024-01-02'', 2)],
          per_day_rows = None\<rparr>"
  by code_simp

lemma hourly_example_value:
  "summarise_hourly_file summarizer_fs ''hourly.csv.gz'' =
     Inr \<lparr>rows = 5, min_date = None, max_date = None,
          min_ts = Some ''2024-01-01T00:00:00'', max_ts = Some ''2024-01-03T05:00:00'',
          latest_collected_at = None,
          per_day_counts = Some [(''2024-01-01'', 1), (''2024-01-02'', 1), (''2024-01-03'', 1)],
          per_day_rows = None\<rparr>"
  by code_simp

lemma forecast_example_value:
  "summarise_forecast summarizer_fs ''forecast.csv.gz'' =
       Inr \<lparr>rows = 4, min_date = Some ''2024-01-01'', max_date = Some ''2024-01-02'',
            min_ts = None, max_ts = None,
            latest_collected_at = Some ''2024-01-01T12:00:00'',
            per_day_counts = None,
            per_day_rows = Some [(''2024-01-01'', 3), (''2024-01-02'', 1)]\<rparr>"
  by code_simp

theorem scan_bounds_witness:
  "summarizer_fs ''daily.csv.gz'' = Some (Gzip daily_example)
   \<and> summarizer_fs ''hourly.csv.gz'' = Some (Gzip hourly_example)
   \<and> summarizer_fs ''forecast.csv.gz'' = Some (Gzip forecast_example)
   \<and> (2::nat) \<le> length [r \<leftarrow> dict_rows daily_example. r ''fecha'' = Some ''2024-01-01'']
   \<and> (1::nat) \<le> length [r \<leftarrow> dict_rows hourly_example.
                        case r ''fint'' of None \<Rightarrow> False
                        | Some t \<Rightarrow> t \<noteq> [] \<and> take 10 t = ''2024-01-01'']
   \<and> ''2024-01-01'' \<le> ''2024-01-02''
   \<and> ''2024-01-01T00:00:00'' \<le> ''2024-01-03T05:00:00''"
proof -
  have hd: "summarizer_fs ''daily.csv.gz'' = Some (Gzip daily_example)"
    and hh: "summarizer_fs ''hourly.csv.gz'' = Some (Gzip hourly_example)"
    and hf: "summarizer_fs ''forecast.csv.gz'' = Some (Gzip forecast_example)"
    by (simp_all add: summarizer_fs_def)
  from scan_bounds [of summarizer_fs "''daily.csv.gz''" daily_example "''hourly.csv.gz''"
      hourly_example "''forecast.csv.gz''" forecast_example "''fecha''" "''indicativo''",
      OF hd hh hf]
  obtain d h f cd ch where
    d: "summarise_daily_file summarizer_fs ''daily.csv.gz'' ''fecha'' ''indicativo'' = Inr d"
      "per_day_counts d = Some cd"
    and h: "summarise_hourly_file summarizer_fs ''hourly.csv.gz'' = Inr h"
      "per_day_counts h = Some ch"
    and f: "summarise_forecast summarizer_fs ''forecast.csv.gz'' = Inr f"
    and bd: "\<forall>(day, n) \<in> set cd. n \<le> length [r \<leftarrow> dict_rows daily_example. r ''fecha'' = Some day]"
    and bh: "\<forall>(day, n) \<in> set ch.
          n \<le> length [r \<leftarrow> dict_rows hourly_example.
                        case r ''fint'' of None \<Rightarrow> False | Some t \<Rightarrow> t \<noteq> [] \<and> take 10 t = day]"
    and md: "\<forall>a b. min_date d = Some a \<and> max_date d = Some b \<longrightarrow> a \<le> b"
    and mh: "\<forall>a b. min_ts h = Some a \<and> max_ts h = Some b \<longrightarrow> a \<le> b"
    by blast
  from d daily_example_value have cd: "(''2024-01-01'', 2) \<in> set cd"
    and dd: "min_date d = Some ''2024-01-01''" "max_date d = Some ''2024-01-02''" by auto
  from h hourly_example_value have ch: "(''2024-01-01'', 1) \<in> set ch"
    and dh: "min_ts h = Some ''2024-01-01T00:00:00''" "max_ts h = Some ''2024-01-03T05:00:00''"
    by auto
  from bd cd have c1: "(2::nat) \<le> length [r \<leftarrow> dict_rows daily_example. r ''fecha'' = Some ''2024-01-01'']"
    by blast
  from bh ch have c2: "(1::nat) \<le> length [r \<leftarrow> dict_rows hourly_example.
                        case r ''fint'' of None \<Rightarrow> False
                        | Some t \<Rightarrow> t \<noteq> [] \<and> take 10 t = ''2024-01-01'']"
    by blast
  from md dd have c3: "''2024-01-01'' \<le> ''2024-01-02''" by blast
  from mh dh have c4: "''2024-01-01T00:00:00'' \<le> ''2024-01-03T05:00:00''" by blast
  from hd hh hf c1 c2 c3 c4 show ?thesis by blast
qed

section \<open>Rows without a station value\<close>

lemma keyed_day_stations:
  "map snd (filter (\<lambda>p. f (fst p) = day) (keyed dc sc rs))
     = map (\<lambda>r. r sc) (filter (\<lambda>r. case r dc of None \<Rightarrow> False | Some d \<Rightarrow> d \<noteq> [] \<and> f d = day) rs)"
  by (induction rs) (auto simp: keyed_def split: option.splits)

lemma keyed_day_set:
  "snd ` {p \<in> set (keyed dc sc rs). f (fst p) = day}
     = set (map (\<lambda>r. r sc) (filter (\<lambda>r. case r dc of None \<Rightarrow> False | Some d \<Rightarrow> d \<noteq> [] \<and> f d = day) rs))"
proof -
  have "snd ` {p \<in> set (keyed dc sc rs). f (fst p) = day}
      = set (map snd (filter (\<lambda>p. f (fst p) = day) (keyed dc sc rs)))" by auto
  then show ?thesis by (simp only: keyed_day_stations)
qed

lemma counts_map_of:
  "map_of (map (\<lambda>(day, stations). (day, card stations))
             (fold (\<lambda>p. add_station (f (fst p)) (snd p)) (keyed dc sc rs) [])) day =
     (let S = set (map (\<lambda>r. r sc)
                (filter (\<lambda>r. case r dc of None \<Rightarrow> False | Some d \<Rightarrow> d \<noteq> [] \<and> f d = day) rs))
      in if S = {} then None else Some (card S))"
proof -
  define ps where "ps = keyed dc sc rs"
  define A where "A = {p \<in> set ps. f (fst p) = day}"
  have i: "day \<in> (\<lambda>p. f (fst p)) ` set ps \<longleftrightarrow> snd ` A \<noteq> {}"
    unfolding A_def by force
  have "map_of (map (\<lambda>(day, stations). (day, card stations))
             (fold (\<lambda>p. add_station (f (fst p)) (snd p)) ps [])) day =
        (if snd ` A = {} then None else Some (card (snd ` A)))"
    using i by (simp add: map_of_counts fold_add_station_map_of A_def)
  then show ?thesis
    unfolding A_def ps_def keyed_day_set by (simp add: Let_def)
qed

lemma card_lacking:
  fixes S :: "string option set"
  assumes "S \<noteq> {}" "S \<subseteq> {None, Some []}"
  shows "card S = (if {None, Some []} \<subseteq> S then 2 else 1)"
proof -
  from assms have "S = {None} \<or> S = {Some []} \<or> S = {None, Some []}" by auto
  then show ?thesis by auto
qed

text \<open>
  Claim C9, as amended. For files that are read, a row with a non-empty date (or
  timestamp) is counted in \<open>rows\<close> and puts what \<open>row.get\<close> gave for the station
  column, \<open>None\<close> for a missing cell and the empty string for an empty one, into the set
  of its day: the count of a day is the number of distinct such values. So a day whose
  rows all lack a station value has the count 1 when the values are all missing or all
  empty, and 2 when both a missing and an empty one occur; it is never 0.
\<close>

theorem station_values_counted:
  assumes "fs daily_path = Some (Gzip daily_recs)"
    and "fs hourly_path = Some (Gzip hourly_recs)"
  shows "\<exists>d h cd ch.
      summarise_daily_file fs daily_path date_col station_col = Inr d \<and> per_day_counts d = Some cd
    \<and> summarise_hourly_file fs hourly_path = Inr h \<and> per_day_counts h = Some ch
    \<and> rows d = length (dict_rows daily_recs) \<and> rows h = length (dict_rows hourly_recs)
    \<and> (\<forall>day. map_of cd day =
          (if day_stations date_col station_col (dict_rows daily_recs) day = {} then None
           else Some (card (day_stations date_col station_col (dict_rows daily_recs) day))))
    \<and> (\<forall>day. map_of ch day =
          (if hourly_day_stations (dict_rows hourly_recs) day = {} then None
           else Some (card (hourly_day_stations (dict_rows hourly_recs) day))))
    \<and> (\<forall>day. day_stations date_col station_col (dict_rows daily_recs) day \<noteq> {}
             \<and> day_stations date_col station_col (dict_rows daily_recs) day \<subseteq> {None, Some []}
          \<longrightarrow> map_of cd day =
                Some (if {None, Some []} \<subseteq> day_stations date_col station_col (dict_rows daily_recs) day
                      then 2 else 1))
    \<and> (\<forall>day. hourly_day_stations (dict_rows hourly_recs) day \<noteq> {}
             \<and> hourly_day_stations (dict_rows hourly_recs) day \<subseteq> {None, Some []}
          \<longrightarrow> map_of ch day =
                Some (if {None, Some []} \<subseteq> hourly_day_stations (dict_rows hourly_recs) day
                      then 2 else 1))"
proof -
  define rd where "rd = dict_rows daily_recs"
  define rh where "rh = dict_rows hourly_recs"
  define cd where "cd = map (\<lambda>(day, stations). (day, card stations))
                          (fold (\<lambda>p. add_station (fst p) (snd p)) (keyed date_col station_col rd) [])"
  define ch where "ch = map (\<lambda>(day, stations). (day, card stations))
                          (fold (\<lambda>p. add_station (take 10 (fst p)) (snd p))
                             (keyed ''fint'' ''idema'' rh) [])"
  have sd: "summarise_daily_file fs daily_path date_col station_col
              = Inr (scan_daily date_col station_col rd)"
    using assms(1) by (simp add: summarise_daily_file_gzip rd_def)
  have sh: "summarise_hourly_file fs hourly_path = Inr (scan_hourly rh)"
    using assms(2) by (simp add: summarise_hourly_file_gzip rh_def)
  have pd: "per_day_counts (scan_daily date_col station_col rd) = Some cd"
    by (simp add: scan_daily_eq cd_def)
  have ph: "per_day_counts (scan_hourly rh) = Some ch"
    by (simp add: scan_hourly_eq ch_def)
  have nd: "rows (scan_daily date_col station_col rd) = length rd" by (simp add: scan_daily_eq)
  have nh: "rows (scan_hourly rh) = length rh" by (simp add: scan_hourly_eq)
  have md: "map_of cd day =
          (if day_stations date_col station_col rd day = {} then None
           else Some (card (day_stations date_col station_col rd day)))" for day
    using counts_map_of [of "\<lambda>x. x" date_col station_col rd day]
    by (simp add: cd_def day_stations_def Let_def)
  have mh: "map_of ch day =
          (if hourly_day_stations rh day = {} then None
           else Some (card (hourly_day_stations rh day)))" for day
    using counts_map_of [of "take 10" "''fint''" "''idema''" rh day]
    by (simp add: ch_def hourly_day_stations_def Let_def)
  have ld: "map_of cd day =
                Some (if {None, Some []} \<subseteq> day_stations date_col station_col rd day then 2 else 1)"
    if "day_stations date_col station_col rd day \<noteq> {}"
      "day_stations date_col station_col rd day \<subseteq> {None, Some []}" for day
    using that card_lacking [OF that] by (simp only: md if_False)
  have lh: "map_of ch day = Some (if {None, Some []} \<subseteq> hourly_day_stations rh day then 2 else 1)"
    if "hourly_day_stations rh day \<noteq> {}" "hourly_day_stations rh day \<subseteq> {None, Some []}" for day
    using that card_lacking [OF that] by (simp only: mh if_False)
  show ?thesis
    unfolding rd_def [symmetric] rh_def [symmetric]
    apply (rule exI [of _ "scan_daily date_col station_col rd"])
    apply (rule exI [of _ "scan_hourly rh"])
    apply (rule exI [of _ cd])
    apply (rule exI [of _ ch])
    using sd sh pd ph nd nh md mh ld lh apply blast
    done
qed

theorem station_values_counted_witness:
  "summarizer_fs ''daily.csv.gz'' = Some (Gzip daily_example)
   \<and> summarizer_fs ''stationless.csv.gz'' = Some (Gzip stationless_example)
   \<and> summarizer_fs ''hourly.csv.gz'' = Some (Gzip hourly_example)
   \<and> day_stations ''fecha'' ''indicativo'' (dict_rows daily_example) ''2024-01-02'' = {Some [], None}
   \<and> day_stations ''fecha'' ''indicativo'' (dict_rows stationless_example) ''2024-01-03'' = {None}
   \<and> hourly_day_stations (dict_rows hourly_example) ''2024-01-03'' = {None}
   \<and> map_of [(''2024-01-01'', 2), (''2024-01-02'', 2)] ''2024-01-02'' = Some (2::nat)
   \<and> map_of [(''2024-01-03'', 1)] ''2024-01-03'' = Some (1::nat)
   \<and> map_of [(''2024-01-01'', 1), (''2024-01-02'', 1), (''2024-01-03'', 1)] ''2024-01-03''
       = Some (1::nat)"
proof -
  have hd: "summarizer_fs ''daily.csv.gz'' = Some (Gzip daily_example)"
    and hs: "summarizer_fs ''stationless.csv.gz'' = Some (Gzip stationless_example)"
    and hh: "summarizer_fs ''hourly.csv.gz'' = Some (Gzip hourly_example)"
    by (simp_all add: summarizer_fs_def)
  have sd: "day_stations ''fecha'' ''indicativo'' (dict_rows daily_example) ''2024-01-02''
      = {Some [], None}" by code_simp
  have ss: "day_stations ''fecha'' ''indicativo'' (dict_rows stationless_example) ''2024-01-03''
      = {None}" by code_simp
  have sh: "hourly_day_stations (dict_rows hourly_example) ''2024-01-03'' = {None}" by code_simp
  have vs: "summarise_daily_file summarizer_fs ''stationless.csv.gz'' ''fecha'' ''indicativo'' =
     Inr \<lparr>rows = 2, min_date = Some ''2024-01-03'', max_date = Some ''2024-01-03'',
          min_ts = None, max_ts = None, latest_collected_at = None,
          per_day_counts = Some [(''2024-01-03'', 1)], per_day_rows = None\<rparr>"
    by code_simp
  from station_values_counted [of summarizer_fs "''daily.csv.gz''" daily_example
      "''hourly.csv.gz''" hourly_example "''fecha''" "''indicativo''", OF hd hh]
  obtain d h cd ch where
    d: "summarise_daily_file summarizer_fs ''daily.csv.gz'' ''fecha'' ''indicativo'' = Inr d"
      "per_day_counts d = Some cd"
    and h: "summarise_hourly_file summarizer_fs ''hourly.csv.gz'' = Inr h"
      "per_day_counts h = Some ch"
    and ld: "\<forall>day. day_stations ''fecha'' ''indicativo'' (dict_rows daily_example) day \<noteq> {}
             \<and> day_stations ''fecha'' ''indicativo'' (dict_rows daily_example) day \<subseteq> {None, Some []}
          \<longrightarrow> map_of cd day =
                Some (if {None, Some []} \<subseteq> day_stations ''fecha'' ''indicativo'' (dict_rows daily_example) day
                      then 2 else 1)"
    and lh: "\<forall>day. hourly_day_stations (dict_rows hourly_example) day \<noteq> {}
             \<and> hourly_day_stations (dict_rows hourly_example) day \<subseteq> {None, Some []}
          \<longrightarrow> map_of ch day =
                Some (if {None, Some []} \<subseteq> hourly_day_stations (dict_rows hourly_example) day
                      then 2 else 1)"
    by blast
  from d daily_example_value have cd: "cd = [(''2024-01-01'', 2), (''2024-01-02'', 2)]" by auto
  from h hourly_example_value
  have ch: "ch = [(''2024-01-01'', 1), (''2024-01-02'', 1), (''2024-01-03'', 1)]" by auto
  from ld [rule_format, of "''2024-01-02''"] sd
  have c1: "map_of [(''2024-01-01'', 2), (''2024-01-02'', 2)] ''2024-01-02'' = Some (2::nat)"
    unfolding cd by simp
  from lh [rule_format, of "''2024-01-03''"] sh
  have c3: "map_of [(''2024-01-01'', 1), (''2024-01-02'', 1), (''2024-01-03'', 1)] ''2024-01-03''
       = Some (1::nat)"
    unfolding ch by simp
  from station_values_counted [of summarizer_fs "''stationless.csv.gz''" stationless_example
      "''hourly.csv.gz''" hourly_example "''fecha''" "''indicativo''", OF hs hh]
  obtain d' cd' where
    d': "summarise_daily_file summarizer_fs ''stationless.csv.gz'' ''fecha'' ''indicativo'' = Inr d'"
      "per_day_counts d' = Some cd'"
    and ld': "\<forall>day. day_stations ''fecha'' ''indicativo'' (dict_rows stationless_example) day \<noteq> {}
             \<and> day_stations ''fecha'' ''indicativo'' (dict_rows stationless_example) day \<subseteq> {None, Some []}
          \<longrightarrow> map_of cd' day =
                Some (if {None, Some []} \<subseteq> day_stations ''fecha'' ''indicativo'' (dict_rows stationless_example) day
                      then 2 else 1)"
    by blast
  from d' vs have cd': "cd' = [(''2024-01-03'', 1)]" by auto
  from ld' [rule_format, of "''2024-01-03''"] ss
  have c2: "map_of [(''2024-01-03'', 1)] ''2024-01-03'' = Some (1::nat)"
    unfolding cd' by simp
  from hd hs hh sd ss sh c1 c2 c3 show ?thesis by blast
qed

text \<open>
  Claim C9 as stated fails on the daily example: the two rows of 2024-01-02 both lack a
  station value, one with an empty cell and one without the cell, and the count
  reported for that day is 2.
\<close>

theorem lacking_station_day_counterexample:
  "day_stations ''fecha'' ''indicativo'' (dict_rows daily_example) ''2024-01-02'' = {Some [], None}
   \<and> summarise_daily_file summarizer_fs ''daily.csv.gz'' ''fecha'' ''indicativo'' =
       Inr \<lparr>rows = 6, min_date = Some ''2024-01-01'', max_date = Some ''2024-01-02'',
            min_ts = None, max_ts = None, latest_collected_at = None,
            per_day_counts = Some [(''2024-01-01'', 2), (''2024-01-02'', 2)],
            per_day_rows = None\<rparr>
   \<and> map_of [(''2024-01-01'', 2), (''2024-01-02'', 2)] ''2024-01-02'' \<noteq> Some (1::nat)"
proof -
  have "day_stations ''fecha'' ''indicativo'' (dict_rows daily_example) ''2024-01-02''
      = {Some [], None}" by code_simp
  with daily_example_value show ?thesis by simp
qed

section \<open>Rows without a date\<close>

lemma keyed_dated: "keyed dc sc [r \<leftarrow> rs. truthy (r dc)] = keyed dc sc rs"
  by (induction rs) (auto simp: keyed_def truthy_def split: option.splits)

lemma values_of_dated: "values_of col [r \<leftarrow> rs. truthy (r col)] = values_of col rs"
  by (induction rs) (auto simp: values_of_def truthy_def split: option.splits)

lemma length_keyed: "length (keyed dc sc rs) = length [r \<leftarrow> rs. truthy (r dc)]"
  by (induction rs) (auto simp: keyed_def truthy_def split: option.splits)

lemma length_values_of: "length (values_of col rs) = length [r \<leftarrow> rs. truthy (r col)]"
  by (induction rs) (auto simp: values_of_def truthy_def split: option.splits)

lemma sum_counts:
  "sum_list (map snd (map (\<lambda>(day, stations). (day, card stations)) pd))
     = sum_list (map (\<lambda>p. card (snd p)) pd)"
  by (induction pd) auto

lemma sum_counts_le:
  "sum_list (map snd (map (\<lambda>(day, stations). (day, card stations))
                       (fold (\<lambda>p. add_station (f (fst p)) (snd p)) (keyed dc sc rs) [])))
     + length [r \<leftarrow> rs. \<not> truthy (r dc)] \<le> length rs"
proof -
  have "sum_list (map (\<lambda>p. card (snd p))
           (fold (\<lambda>p. add_station (f (fst p)) (snd p)) (keyed dc sc rs) []))
      \<le> length (keyed dc sc rs)"
    using sum_fold_add_station [of "[]" f "keyed dc sc rs"] by simp
  moreover have "length [r \<leftarrow> rs. truthy (r dc)] + length [r \<leftarrow> rs. \<not> truthy (r dc)] = length rs"
    by (rule sum_length_filter_compl)
  ultimately show ?thesis unfolding sum_counts length_keyed by linarith
qed

text \<open>
  Claim C10. For files that are read, \<open>rows\<close> is the number of all rows in each of the
  three summaries. Scanning only the rows that have a date (or timestamp) gives the
  same daily and hourly summary apart from \<open>rows\<close>, and the same \<open>per_day_rows\<close>,
  \<open>min_date\<close> and \<open>max_date\<close> of the forecast summary, so the other rows contribute to
  none of these. The sum of the per-day values and the number of rows without a date
  together are at most \<open>rows\<close>, and exactly \<open>rows\<close> in the forecast summary; hence
  \<open>rows\<close> is strictly greater than the sum as soon as one row has no date.
\<close>

theorem rows_count_every_row:
  assumes "fs daily_path = Some (Gzip daily_recs)"
    and "fs hourly_path = Some (Gzip hourly_recs)"
    and "fs forecast_path = Some (Gzip forecast_recs)"
  shows "\<exists>d h f cd ch pr.
      summarise_daily_file fs daily_path date_col station_col = Inr d \<and> per_day_counts d = Some cd
    \<and> summarise_hourly_file fs hourly_path = Inr h \<and> per_day_counts h = Some ch
    \<and> summarise_forecast fs forecast_path = Inr f \<and> per_day_rows f = Some pr
    \<and> rows d = length (dict_rows daily_recs)
    \<and> rows h = length (dict_rows hourly_recs)
    \<and> rows f = length (dict_rows forecast_recs)
    \<and> scan_daily date_col station_col [r \<leftarrow> dict_rows daily_recs. truthy (r date_col)]
        = d\<lparr>rows := length [r \<leftarrow> dict_rows daily_recs. truthy (r date_col)]\<rparr>
    \<and> scan_hourly [r \<leftarrow> dict_rows hourly_recs. truthy (r ''fint'')]
        = h\<lparr>rows := length [r \<leftarrow> dict_rows hourly_recs. truthy (r ''fint'')]\<rparr>
    \<and> per_day_rows (scan_forecast [r \<leftarrow> dict_rows forecast_recs. truthy (r ''fecha'')]) = Some pr
    \<and> min_date (scan_forecast [r \<leftarrow> dict_rows forecast_recs. truthy (r ''fecha'')]) = min_date f
    \<and> max_date (scan_forecast [r \<leftarrow> dict_rows forecast_recs. truthy (r ''fecha'')]) = max_date f
    \<and> sum_list (map snd cd) + length [r \<leftarrow> dict_rows daily_recs. \<not> truthy (r date_col)] \<le> rows d
    \<and> sum_list (map snd ch) + length [r \<leftarrow> dict_rows hourly_recs. \<not> truthy (r ''fint'')] \<le> rows h
    \<and> sum_list (map snd pr) + length [r \<leftarrow> dict_rows forecast_recs. \<not> truthy (r ''fecha'')] = rows f"
proof -
  define rd where "rd = dict_rows daily_recs"
  define rh where "rh = dict_rows hourly_recs"
  define rf where "rf = dict_rows forecast_recs"
  define cd where "cd = map (\<lambda>(day, stations). (day, card stations))
                          (fold (\<lambda>p. add_station (fst p) (snd p)) (keyed date_col station_col rd) [])"
  define ch where "ch = map (\<lambda>(day, stations). (day, card stations))
                          (fold (\<lambda>p. add_station (take 10 (fst p)) (snd p))
                             (keyed ''fint'' ''idema'' rh) [])"
  define pr where "pr = fold add_one (values_of ''fecha'' rf) []"
  have sd: "summarise_daily_file fs daily_path date_col station_col
              = Inr (scan_daily date_col station_col rd)"
    using assms(1) by (simp add: summarise_daily_file_gzip rd_def)
  have sh: "summarise_hourly_file fs hourly_path = Inr (scan_hourly rh)"
    using assms(2) by (simp add: summarise_hourly_file_gzip rh_def)
  have sf: "summarise_forecast fs forecast_path = Inr (scan_forecast rf)"
    using assms(3) by (simp add: summarise_forecast_gzip rf_def)
  have pd: "per_day_counts (scan_daily date_col station_col rd) = Some cd"
    by (simp add: scan_daily_eq cd_def)
  have ph: "per_day_counts (scan_hourly rh) = Some ch"
    by (simp add: scan_hourly_eq ch_def)
  have pf: "per_day_rows (scan_forecast rf) = Some pr"
    by (simp add: scan_forecast_eq pr_def)
  have nd: "rows (scan_daily date_col station_col rd) = length rd" by (simp add: scan_daily_eq)
  have nh: "rows (scan_hourly rh) = length rh" by (simp add: scan_hourly_eq)
  have nf: "rows (scan_forecast rf) = length rf" by (simp add: scan_forecast_eq)
  have fd: "scan_daily date_col station_col [r \<leftarrow> rd. truthy (r date_col)]
        = (scan_daily date_col station_col rd)\<lparr>rows := length [r \<leftarrow> rd. truthy (r date_col)]\<rparr>"
    by (simp add: scan_daily_eq keyed_dated)
  have fh: "scan_hourly [r \<leftarrow> rh. truthy (r ''fint'')]
        = (scan_hourly rh)\<lparr>rows := length [r \<leftarrow> rh. truthy (r ''fint'')]\<rparr>"
    by (simp add: scan_hourly_eq keyed_dated)
  have ff: "per_day_rows (scan_forecast [r \<leftarrow> rf. truthy (r ''fecha'')]) = Some pr"
    "min_date (scan_forecast [r \<leftarrow> rf. truthy (r ''fecha'')]) = min_date (scan_forecast rf)"
    "max_date (scan_forecast [r \<leftarrow> rf. truthy (r ''fecha'')]) = max_date (scan_forecast rf)"
    by (simp_all add: scan_forecast_eq values_of_dated pr_def)
  have ud: "sum_list (map snd cd) + length [r \<leftarrow> rd. \<not> truthy (r date_col)]
      \<le> rows (scan_daily date_col station_col rd)"
    unfolding nd cd_def
    using sum_counts_le [of "\<lambda>x. x" date_col station_col rd] by simp
  have uh: "sum_list (map snd ch) + length [r \<leftarrow> rh. \<not> truthy (r ''fint'')] \<le> rows (scan_hourly rh)"
    unfolding nh ch_def by (rule sum_counts_le)
  have "length [r \<leftarrow> rf. truthy (r ''fecha'')] + length [r \<leftarrow> rf. \<not> truthy (r ''fecha'')] = length rf"
    by (rule sum_length_filter_compl)
  then have uf: "sum_list (map snd pr) + length [r \<leftarrow> rf. \<not> truthy (r ''fecha'')] = rows (scan_forecast rf)"
    by (simp add: nf pr_def sum_fold_add_one length_values_of)
  show ?thesis
    unfolding rd_def [symmetric] rh_def [symmetric] rf_def [symmetric]
    apply (rule exI [of _ "scan_daily date_col station_col rd"])
    apply (rule exI [of _ "scan_hourly rh"])
    apply (rule exI [of _ "scan_forecast rf"])
    apply (rule exI [of _ cd])
    apply (rule exI [of _ ch])
    apply (rule exI [of _ pr])
    using sd sh sf pd ph pf nd nh nf fd fh ff ud uh uf apply blast
    done
qed

lemma forecast_gaps_example_value:
  "summarise_forecast summarizer_fs ''forecast_gaps.csv.gz'' =
     Inr \<lparr>rows = 3, min_date = Some ''2024-01-01'', max_date = Some ''2024-01-01'',
          min_ts = None, max_ts = None,
          latest_collected_at = Some ''2024-01-01T18:00:00'',
          per_day_counts = None, per_day_rows = Some [(''2024-01-01'', 2)]\<rparr>"
  by code_simp

theorem rows_count_every_row_witness:
  "summarizer_fs ''daily.csv.gz'' = Some (Gzip daily_example)
   \<and> summarizer_fs ''hourly.csv.gz'' = Some (Gzip hourly_example)
   \<and> summarizer_fs ''forecast_gaps.csv.gz'' = Some (Gzip forecast_gaps_example)
   \<and> length (dict_rows daily_example) = 6
   \<and> length [r \<leftarrow> dict_rows daily_example. \<not> truthy (r ''fecha'')] = 1
   \<and> sum_list (map snd [(''2024-01-01'', 2), (''2024-01-02'', 2)]) + 1 \<le> (6::nat)
   \<and> length (dict_rows forecast_gaps_example) = 3
   \<and> length [r \<leftarrow> dict_rows forecast_gaps_example. \<not> truthy (r ''fecha'')] = 1
   \<and> sum_list (map snd [(''2024-01-01'', 2)]) + 1 = (3::nat)
   \<and> sum_list (map snd [(''2024-01-01'', 2)]) < (3::nat)"
proof -
  have hd: "summarizer_fs ''daily.csv.gz'' = Some (Gzip daily_example)"
    and hh: "summarizer_fs ''hourly.csv.gz'' = Some (Gzip hourly_example)"
    and hf: "summarizer_fs ''forecast_gaps.csv.gz'' = Some (Gzip forecast_gaps_example)"
    by (simp_all add: summarizer_fs_def)
  have ud: "length [r \<leftarrow> dict_rows daily_example. \<not> truthy (r ''fecha'')] = 1" by code_simp
  have uf: "length [r \<leftarrow> dict_rows forecast_gaps_example. \<not> truthy (r ''fecha'')] = 1"
    by code_simp
  from rows_count_every_row [of summarizer_fs "''daily.csv.gz''" daily_example
      "''hourly.csv.gz''" hourly_example "''forecast_gaps.csv.gz''" forecast_gaps_example
      "''fecha''" "''indicativo''", OF hd hh hf]
  obtain d f cd pr where
    d: "summarise_daily_file summarizer_fs ''daily.csv.gz'' ''fecha'' ''indicativo'' = Inr d"
      "per_day_counts d = Some cd"
    and f: "summarise_forecast summarizer_fs ''forecast_gaps.csv.gz'' = Inr f"
      "per_day_rows f = Some pr"
    and nd: "rows d = length (dict_rows daily_example)"
    and nf: "rows f = length (dict_rows forecast_gaps_example)"
    and sd: "sum_list (map snd cd) + length [r \<leftarrow> dict_rows daily_example. \<not> truthy (r ''fecha'')]
        \<le> rows d"
    and sf: "sum_list (map snd pr)
        + length [r \<leftarrow> dict_rows forecast_gaps_example. \<not> truthy (r ''fecha'')] = rows f"
    by blast
  from d daily_example_value have vd: "cd = [(''2024-01-01'', 2), (''2024-01-02'', 2)]" "rows d = 6"
    by auto
  from f forecast_gaps_example_value have vf: "pr = [(''2024-01-01'', 2)]" "rows f = 3"
    by auto
  from nd vd have c1: "length (dict_rows daily_example) = 6" by simp
  from nf vf have c2: "length (dict_rows forecast_gaps_example) = 3" by simp
  from sd have c3: "sum_list (map snd [(''2024-01-01'', 2), (''2024-01-02'', 2)]) + 1 \<le> (6::nat)"
    unfolding vd ud .
  from sf have c4: "sum_list (map snd [(''2024-01-01'', 2)]) + 1 = (3::nat)"
    unfolding vf uf .
  from c4 have c5: "sum_list (map snd [(''2024-01-01'', 2)]) < (3::nat)" by linarith
  from hd hh hf ud uf c1 c2 c3 c4 c5 show ?thesis by blast
qed

section \<open>Missing files in the summarizer\<close>

lemma summarizer_main_absent:
  "\<not> path_exists fs path \<Longrightarrow>
   summarizer_main fs ((label, path) # rest) =
     ([''=== '' @ label @ '' ==='', ''File not found: '' @ path, []] @ fst (summarizer_main fs rest),
      snd (summarizer_main fs rest))"
  by (simp split: prod.splits)

lemma summarizer_main_present:
  "path_exists fs path \<Longrightarrow>
   summarizer_main fs ((label, path) # rest) =
     (case summarise_by_label fs label path of
        Inl e \<Rightarrow> ([], Some e)
      | Inr st \<Rightarrow> (emit_summary label st 7 @ fst (summarizer_main fs rest),
                  snd (summarizer_main fs rest)))"
  by (simp split: prod.splits sum.splits)

declare summarizer_main.simps(2) [simp del]

lemma summarise_by_label_gzip:
  "fs path = Some (Gzip recs) \<Longrightarrow> \<exists>st. summarise_by_label fs label path = Inr st"
  by (simp add: summarise_by_label_def summarise_daily_file_gzip summarise_hourly_file_gzip
      summarise_forecast_gzip)

lemma summarizer_main_append:
  "snd (summarizer_main fs xs) = None \<Longrightarrow>
   summarizer_main fs (xs @ ys) =
     (fst (summarizer_main fs xs) @ fst (summarizer_main fs ys), snd (summarizer_main fs ys))"
proof (induction xs)
  case Nil then show ?case by simp
next
  case (Cons x xs)
  obtain label path where x: "x = (label, path)" by (cases x)
  show ?case
  proof (cases "path_exists fs path")
    case None: False
    from Cons.prems have "snd (summarizer_main fs xs) = None"
      by (simp add: x summarizer_main_absent [OF None])
    with Cons.IH show ?thesis
      by (simp add: x summarizer_main_absent [OF None])
  next
    case Some: True
    show ?thesis
    proof (cases "summarise_by_label fs label path")
      case (Inl e)
      with Cons.prems show ?thesis by (simp add: x summarizer_main_present [OF Some])
    next
      case (Inr st)
      from Cons.prems have "snd (summarizer_main fs xs) = None"
        by (simp add: x summarizer_main_present [OF Some] Inr)
      with Cons.IH show ?thesis
        by (simp add: x summarizer_main_present [OF Some] Inr)
    qed
  qed
qed

lemma summarizer_main_raised:
  "snd (summarizer_main fs xs) = Some e \<Longrightarrow> summarizer_main fs (xs @ ys) = summarizer_main fs xs"
proof (induction xs)
  case Nil then show ?case by simp
next
  case (Cons x xs)
  obtain label path where x: "x = (label, path)" by (cases x)
  show ?case
  proof (cases "path_exists fs path")
    case None: False
    from Cons.prems have "snd (summarizer_main fs xs) = Some e"
      by (simp add: x summarizer_main_absent [OF None])
    with Cons.IH show ?thesis
      by (simp add: x summarizer_main_absent [OF None])
  next
    case Some: True
    show ?thesis
    proof (cases "summarise_by_label fs label path")
      case (Inl e')
      then show ?thesis by (simp add: x summarizer_main_present [OF Some])
    next
      case (Inr st)
      from Cons.prems have "snd (summarizer_main fs xs) = Some e"
        by (simp add: x summarizer_main_present [OF Some] Inr)
      with Cons.IH show ?thesis
        by (simp add: x summarizer_main_present [OF Some] Inr)
    qed
  qed
qed

lemma summarizer_main_readable:
  "\<forall>(label, path) \<in> set ps. fs path = None \<or> (\<exists>recs. fs path = Some (Gzip recs)) \<Longrightarrow>
   snd (summarizer_main fs ps) = None"
proof (induction ps)
  case Nil then show ?case by simp
next
  case (Cons x ps)
  obtain label path where x: "x = (label, path)" by (cases x)
  from Cons.prems have r: "snd (summarizer_main fs ps) = None" by (intro Cons.IH) simp
  from Cons.prems x have "fs path = None \<or> (\<exists>recs. fs path = Some (Gzip recs))" by simp
  then show ?case
  proof
    assume "fs path = None"
    then have n: "\<not> path_exists fs path" by (simp add: path_exists_def)
    with r x show ?thesis by (simp add: summarizer_main_absent [OF n])
  next
    assume "\<exists>recs. fs path = Some (Gzip recs)"
    then obtain recs where g: "fs path = Some (Gzip recs)" ..
    then have p: "path_exists fs path" by (simp add: path_exists_def)
    from summarise_by_label_gzip [of fs path recs label, OF g] obtain st
      where "summarise_by_label fs label path = Inr st" ..
    with r x show ?thesis
      by (simp add: summarizer_main_present [OF p])
  qed
qed

text \<open>
  Claim C7. For a path that does not exist, the summarizer prints the header of its
  label, the line "File not found" with the path, and an empty line, and goes on with
  the remaining files: when the files before it were summarised, the output of the run
  is their output, the notice, and the output for the files after it, in this order.
  The exit status of the run is the one of the run without the missing path, and it is
  0 when every other path is missing or a gzip file.
\<close>

theorem missing_file_skipped:
  assumes "fs path = None"
  shows "summarizer_main fs ((label, path) # rest) =
           ([''=== '' @ label @ '' ==='', ''File not found: '' @ path, []]
              @ fst (summarizer_main fs rest),
            snd (summarizer_main fs rest))
       \<and> (snd (summarizer_main fs before) = None \<longrightarrow>
            summarizer_main fs (before @ (label, path) # rest) =
              (fst (summarizer_main fs before)
                 @ [''=== '' @ label @ '' ==='', ''File not found: '' @ path, []]
                 @ fst (summarizer_main fs rest),
               snd (summarizer_main fs rest)))
       \<and> summarizer_exit_status fs (before @ (label, path) # rest)
           = summarizer_exit_status fs (before @ rest)
       \<and> ((\<forall>(l, p) \<in> set (before @ rest). fs p = None \<or> (\<exists>recs. fs p = Some (Gzip recs))) \<longrightarrow>
            summarizer_exit_status fs (before @ (label, path) # rest) = 0)"
proof -
  from assms have "\<not> path_exists fs path" by (simp add: path_exists_def)
  note a = summarizer_main_absent [OF this, of label rest]
  have b: "summarizer_main fs (before @ (label, path) # rest) =
              (fst (summarizer_main fs before)
                 @ [''=== '' @ label @ '' ==='', ''File not found: '' @ path, []]
                 @ fst (summarizer_main fs rest),
               snd (summarizer_main fs rest))"
    if "snd (summarizer_main fs before) = None"
    using that by (simp add: summarizer_main_append a)
  have c: "summarizer_exit_status fs (before @ (label, path) # rest)
           = summarizer_exit_status fs (before @ rest)"
  proof (cases "snd (summarizer_main fs before)")
    case None
    then show ?thesis
      by (simp add: summarizer_exit_status_def summarizer_main_append a)
  next
    case (Some e)
    then show ?thesis by (simp add: summarizer_exit_status_def summarizer_main_raised)
  qed
  have d: "summarizer_exit_status fs (before @ (label, path) # rest) = 0"
    if "\<forall>(l, p) \<in> set (before @ rest). fs p = None \<or> (\<exists>recs. fs p = Some (Gzip recs))"
    using summarizer_main_readable [of "before @ rest" fs, OF that]
    unfolding c by (simp add: summarizer_exit_status_def)
  from a b c d show ?thesis by blast
qed

theorem missing_file_skipped_witness:
  "summarizer_fs ''missing.csv.gz'' = None
   \<and> snd (summarizer_main summarizer_fs [(''Current Daily'', ''daily.csv.gz'')]) = None
   \<and> summarizer_main summarizer_fs
         [(''Current Daily'', ''daily.csv.gz''), (''Hourly'', ''missing.csv.gz''),
          (''Forecast'', ''forecast.csv.gz'')] =
       ([''=== Current Daily ==='', ''rows: 6'', ''min_date: 2024-01-01'',
         ''max_date: 2024-01-02'', ''stations_per_day (last 2 days):'',
         ''  2024-01-01: 2'', ''  2024-01-02: 2'', [],
         ''=== Hourly ==='', ''File not found: missing.csv.gz'', [],
         ''=== Forecast ==='', ''rows: 4'', ''min_date: 2024-01-01'',
         ''max_date: 2024-01-02'', ''latest_collected_at: 2024-01-01T12:00:00'',
         ''rows_per_day (last 2 days):'', ''  2024-01-01: 3'', ''  2024-01-02: 1'', []],
        None)
   \<and> summarizer_exit_status summarizer_fs
         [(''Current Daily'', ''daily.csv.gz''), (''Hourly'', ''missing.csv.gz''),
          (''Forecast'', ''forecast.csv.gz'')] = 0"
proof -
  have n: "summarizer_fs ''missing.csv.gz'' = None" by (simp add: summarizer_fs_def)
  have b: "summarizer_main summarizer_fs [(''Current Daily'', ''daily.csv.gz'')] =
       ([''=== Current Daily ==='', ''rows: 6'', ''min_date: 2024-01-01'',
         ''max_date: 2024-01-02'', ''stations_per_day (last 2 days):'',
         ''  2024-01-01: 2'', ''  2024-01-02: 2'', []], None)"
    by code_simp
  have r: "summarizer_main summarizer_fs [(''Forecast'', ''forecast.csv.gz'')] =
       ([''=== Forecast ==='', ''rows: 4'', ''min_date: 2024-01-01'',
         ''max_date: 2024-01-02'', ''latest_collected_at: 2024-01-01T12:00:00'',
         ''rows_per_day (last 2 days):'', ''  2024-01-01: 3'', ''  2024-01-02: 1'', []], None)"
    by code_simp
  have g: "\<forall>(l, p) \<in> set ([(''Current Daily'', ''daily.csv.gz'')] @ [(''Forecast'', ''forecast.csv.gz'')]).
      summarizer_fs p = None \<or> (\<exists>recs. summarizer_fs p = Some (Gzip recs))"
    by (simp add: summarizer_fs_def)
  note t = missing_file_skipped [of summarizer_fs "''missing.csv.gz''" "''Hourly''"
      "[(''Forecast'', ''forecast.csv.gz'')]" "[(''Current Daily'', ''daily.csv.gz'')]", OF n]
  from b have b': "snd (summarizer_main summarizer_fs [(''Current Daily'', ''daily.csv.gz'')]) = None"
    by simp
  from t [THEN conjunct2, THEN conjunct1, THEN mp, OF b']
  have c1: "summarizer_main summarizer_fs
         [(''Current Daily'', ''daily.csv.gz''), (''Hourly'', ''missing.csv.gz''),
          (''Forecast'', ''forecast.csv.gz'')] =
       ([''=== Current Daily ==='', ''rows: 6'', ''min_date: 2024-01-01'',
         ''max_date: 2024-01-02'', ''stations_per_day (last 2 days):'',
         ''  2024-01-01: 2'', ''  2024-01-02: 2'', [],
         ''=== Hourly ==='', ''File not found: missing.csv.gz'', [],
         ''=== Forecast ==='', ''rows: 4'', ''min_date: 2024-01-01'',
         ''max_date: 2024-01-02'', ''latest_collected_at: 2024-01-01T12:00:00'',
         ''rows_per_day (last 2 days):'', ''  2024-01-01: 3'', ''  2024-01-02: 1'', []],
        None)"
    by (simp add: b r)
  from t [THEN conjunct2, THEN conjunct2, THEN conjunct2, THEN mp, OF g]
  have c2: "summarizer_exit_status summarizer_fs
         [(''Current Daily'', ''daily.csv.gz''), (''Hourly'', ''missing.csv.gz''),
          (''Forecast'', ''forecast.csv.gz'')] = 0"
    by simp
  from n b' c1 c2 show ?thesis by blast
qed

section \<open>Opening a file that is not compressed\<close>

lemma plain_file_raises:
  assumes "fs path = Some (Plain recs)" "recs \<noteq> []"
  shows "open_text fs path = Inr (GzipText (Plain recs))"
    and "summarise_by_label fs label path = Inl BadGzipFile"
proof -
  from assms(1) show o: "open_text fs path = Inr (GzipText (Plain recs))"
    by (simp add: open_text_def gzip_open_def)
  from assms(2) show "summarise_by_label fs label path = Inl BadGzipFile"
    by (simp add: summarise_by_label_def summarise_daily_file_def summarise_hourly_file_def
        summarise_forecast_def o)
qed

text \<open>
  Claim C3 fails on a file that exists and is plain text. \<open>open_text\<close> returns the gzip
  reader, since opening it raises nothing; the first read raises \<open>BadGzipFile\<close> outside
  the \<open>try\<close>, no row is read, and the run ends with exit status 1. The same text in a
  gzip file is summarised.
\<close>

theorem plain_text_file_not_read:
  "summarizer_fs ''forecast.csv'' = Some (Plain forecast_example)
   \<and> open_text summarizer_fs ''forecast.csv'' = Inr (GzipText (Plain forecast_example))
   \<and> summarise_forecast summarizer_fs ''forecast.csv'' = Inl BadGzipFile
   \<and> summarizer_main summarizer_fs [(''Forecast'', ''forecast.csv'')] = ([], Some BadGzipFile)
   \<and> summarizer_exit_status summarizer_fs [(''Forecast'', ''forecast.csv'')] = 1
   \<and> summarise_forecast summarizer_fs ''forecast.csv.gz'' =
       Inr \<lparr>rows = 4, min_date = Some ''2024-01-01'', max_date = Some ''2024-01-02'',
            min_ts = None, max_ts = None,
            latest_collected_at = Some ''2024-01-01T12:00:00'',
            per_day_counts = None,
            per_day_rows = Some [(''2024-01-01'', 3), (''2024-01-02'', 1)]\<rparr>"
proof -
  have p: "summarizer_fs ''forecast.csv'' = Some (Plain forecast_example)"
    by (simp add: summarizer_fs_def)
  have ne: "forecast_example \<noteq> []" by (simp add: forecast_example_def)
  have o: "open_text summarizer_fs ''forecast.csv'' = Inr (GzipText (Plain forecast_example))"
    by (rule plain_file_raises(1) [of summarizer_fs "''forecast.csv''" forecast_example, OF p ne])
  have s: "summarise_forecast summarizer_fs ''forecast.csv'' = Inl BadGzipFile"
    using plain_file_raises(2) [of summarizer_fs "''forecast.csv''" forecast_example "''Forecast''",
        OF p ne]
    by (simp add: summarise_by_label_def startswith_def)
  have m: "summarizer_main summarizer_fs [(''Forecast'', ''forecast.csv'')] = ([], Some BadGzipFile)"
    by code_simp
  then have e: "summarizer_exit_status summarizer_fs [(''Forecast'', ''forecast.csv'')] = 1"
    by (simp add: summarizer_exit_status_def)
  from p o s m e forecast_example_value show ?thesis by blast
qed


end
